theory Spec2Isabelle
  imports Complex_Main "HOL-Library.Char_ord" "HOL-Library.List_Lexorder" "HOL-Library.Monad_Syntax"
begin

section \<open>Values, exceptions and user-facing messages\<close>

text \<open>
  The program (\<^verbatim>\<open>app.py\<close>) reads a table with pandas, normalises one column of
  dates, groups and reduces the rest, and reports through Streamlit calls.

  A table cell is missing (pandas' \<^verbatim>\<open>None\<close>/\<^verbatim>\<open>NaN\<close>, for which \<^verbatim>\<open>pd.isna\<close>
  holds), a text or a number. Python strings are modelled as lists of 8-bit characters,
  read as the code points 0 to 255. Numbers are exact rationals: rounding of
  floating-point arithmetic, infinities and the difference between integer and float
  columns are outside the model, and so are the other kinds of cell that a reader of
  pandas can produce (timestamps, booleans).
\<close>

datatype cell = Null | Str string | Num rat

text \<open>Python exceptions, as far as the program can meet them.\<close>

datatype exn =
    TypeError
  | ValueError
  | KeyError string
  | ParserError
  | OverflowError
  | OutOfBoundsDatetime
  | OtherError string

text \<open>
  The texts handed to \<^verbatim>\<open>st.error\<close>. The two formatted ones keep their arguments:
  \<^verbatim>\<open>f"Error parsing date: {date_str} -> {e}"\<close> and
  \<^verbatim>\<open>f"Missing columns: {missing_cols}"\<close>.
\<close>

datatype error_text =
    ErrorParsingDate cell exn
  | UnsupportedFileType
  | MissingColumns "string list"
  | UnsupportedAggregation
  | NoColumnsSelected

text \<open>
  The Streamlit calls of \<^verbatim>\<open>format_date\<close> and \<^verbatim>\<open>process_file\<close>, in the order they
  are made: \<^verbatim>\<open>st.error\<close>, \<^verbatim>\<open>st.write("Available columns ...", columns)\<close>,
  \<^verbatim>\<open>st.success\<close> and \<^verbatim>\<open>st.download_button\<close> with its payload.
\<close>

datatype message =
    Error error_text
  | WriteColumns "string list"
  | Success
  | DownloadButton string

section \<open>The date normaliser \<^verbatim>\<open>format_date\<close>\<close>

subsection \<open>The regular expression of line 13\<close>

text \<open>
  \<^verbatim>\<open>\d\<close> on a Python string matches the decimal digits; among the code points below
  256 these are \<^verbatim>\<open>0\<close> to \<^verbatim>\<open>9\<close>. \<^verbatim>\<open>\w\<close> matches the characters for which
  \<^verbatim>\<open>str.isalnum\<close> holds and the underscore; below 256 these are the ASCII letters and
  digits, the underscore, and the Latin-1 letters and numeric characters listed by
  their code points.
\<close>

definition is_digit :: "char \<Rightarrow> bool" where
  "is_digit c = (c \<in> set ''0123456789'')"

definition is_word :: "char \<Rightarrow> bool" where
  "is_word c =
     (let n = (of_char c :: nat) in
        (48 \<le> n \<and> n \<le> 57) \<or> (65 \<le> n \<and> n \<le> 90) \<or> n = 95 \<or> (97 \<le> n \<and> n \<le> 122) \<or>
        n = 170 \<or> n = 178 \<or> n = 179 \<or> n = 181 \<or> n = 185 \<or> n = 186 \<or>
        (188 \<le> n \<and> n \<le> 190) \<or> (192 \<le> n \<and> n \<le> 214) \<or>
        (216 \<le> n \<and> n \<le> 246) \<or> (248 \<le> n \<and> n \<le> 255))"

text \<open>
  The pieces of the pattern, each taking the text still to be matched and returning what
  is left of it: \<^verbatim>\<open>(\d{n})\<close> as a group, one literal character, and \<^verbatim>\<open>\w+\<close>.
  \<^verbatim>\<open>\w+\<close> is greedy and is followed in the pattern by a space, which is no word
  character: the only run that can be followed by the space is the longest one, so no
  backtracking is lost by taking it.
\<close>

definition digits :: "nat \<Rightarrow> string \<Rightarrow> (string \<times> string) option" where
  "digits n s =
     (if n \<le> length s \<and> list_all is_digit (take n s) then Some (take n s, drop n s) else None)"

definition lit :: "char \<Rightarrow> string \<Rightarrow> string option" where
  "lit c s = (case s of [] \<Rightarrow> None | x # r \<Rightarrow> if x = c then Some r else None)"

definition word_plus :: "string \<Rightarrow> string option" where
  "word_plus s = (if takeWhile is_word s = [] then None else Some (dropWhile is_word s))"

text \<open>
  \<^verbatim>\<open>re.match(r'(\d{4}) (\d{2}) \(\w+ \'\d{2}\)', date_str)\<close>: anchored at the start of
  the string only, so any text may follow the closing bracket. The result is the pair
  of groups \<^verbatim>\<open>(year, month)\<close>.
\<close>

definition re_match :: "string \<Rightarrow> (string \<times> string) option" where
  "re_match s = do {
     (year, s1) \<leftarrow> digits 4 s;
     s2 \<leftarrow> lit (CHR '' '') s1;
     (month, s3) \<leftarrow> digits 2 s2;
     s4 \<leftarrow> lit (CHR '' '') s3;
     s5 \<leftarrow> lit (CHR ''('') s4;
     s6 \<leftarrow> word_plus s5;
     s7 \<leftarrow> lit (CHR '' '') s6;
     s8 \<leftarrow> lit (CHR 0x27) s7;
     (yy, s9) \<leftarrow> digits 2 s8;
     s10 \<leftarrow> lit (CHR '')'') s9;
     Some (year, month)
   }"

subsection \<open>Dates, \<^verbatim>\<open>pd.to_datetime\<close> and \<^verbatim>\<open>strftime\<close>\<close>

text \<open>A calendar date: year, month, day.\<close>

type_synonym date = "nat \<times> nat \<times> nat"

definition digit_val :: "char \<Rightarrow> nat" where
  "digit_val c = of_char c - 48"

definition nat_of_digits :: "string \<Rightarrow> nat" where
  "nat_of_digits s = foldl (\<lambda>a c. 10 * a + digit_val c) 0 s"

definition leap_year :: "nat \<Rightarrow> bool" where
  "leap_year y = (y mod 4 = 0 \<and> (y mod 100 \<noteq> 0 \<or> y mod 400 = 0))"

definition days_in_month :: "nat \<Rightarrow> nat \<Rightarrow> nat" where
  "days_in_month y m =
     (if m = 2 then (if leap_year y then 29 else 28)
      else if m \<in> {4, 6, 9, 11} then 30 else 31)"

definition valid_date :: "date \<Rightarrow> bool" where
  "valid_date d =
     (case d of (y, m, dd) \<Rightarrow>
        1 \<le> y \<and> 1 \<le> m \<and> m \<le> 12 \<and> 1 \<le> dd \<and> dd \<le> days_in_month y m)"

text \<open>
  pandas keeps a timestamp as signed 64-bit nanoseconds since 1970:
  \<^verbatim>\<open>Timestamp.min\<close> is 1677-09-21 00:12:43.145224193 and \<^verbatim>\<open>Timestamp.max\<close> is
  2262-04-11 23:47:16.854775807. Midnight of a day lies in that range from 1677-09-22
  to 2262-04-11.
\<close>

definition date_le :: "date \<Rightarrow> date \<Rightarrow> bool" where
  "date_le a b =
     (case a of (y, m, d) \<Rightarrow> case b of (y', m', d') \<Rightarrow>
        y < y' \<or> (y = y' \<and> (m < m' \<or> (m = m' \<and> d \<le> d'))))"

definition in_timestamp_bounds :: "date \<Rightarrow> bool" where
  "in_timestamp_bounds d = (date_le (1677, 9, 22) d \<and> date_le d (2262, 4, 11))"

text \<open>
  \<^verbatim>\<open>pd.to_datetime(date, format='%Y-%m-%d')\<close> on the text built at line 16, which is
  always four digits, a hyphen, two digits, a hyphen and two digits. A text of that
  shape that names no calendar date is a \<^verbatim>\<open>ValueError\<close>; a date outside the
  timestamp range is an \<^verbatim>\<open>OutOfBoundsDatetime\<close>. Texts of another shape never reach
  the call from \<^verbatim>\<open>format_date\<close>; the model rejects them.
\<close>

definition to_datetime :: "string \<Rightarrow> exn + date" where
  "to_datetime s =
     (let y = take 4 s; m = take 2 (drop 5 s); d = drop 8 s in
      if length s = 10 \<and> s ! 4 = CHR ''-'' \<and> s ! 7 = CHR ''-'' \<and> list_all is_digit (y @ m @ d)
      then
        (let dt = (nat_of_digits y, nat_of_digits m, nat_of_digits d) in
         if \<not> valid_date dt then Inl ValueError
         else if \<not> in_timestamp_bounds dt then Inl OutOfBoundsDatetime
         else Inr dt)
      else Inl ValueError)"

definition digit_char :: "nat \<Rightarrow> char" where
  "digit_char n = ''0123456789'' ! (n mod 10)"

definition pad2 :: "nat \<Rightarrow> string" where
  "pad2 n = [digit_char (n div 10), digit_char n]"

definition pad4 :: "nat \<Rightarrow> string" where
  "pad4 n = [digit_char (n div 1000), digit_char (n div 100), digit_char (n div 10), digit_char n]"

text \<open>
  \<^verbatim>\<open>.strftime('%d-%m-%Y')\<close>: day and month on two digits, the year on four. (For a
  year below 1000, which only the fuzzy parser can return, some C libraries print fewer
  digits; the model pads.)
\<close>

definition strftime :: "date \<Rightarrow> string" where
  "strftime d = (case d of (y, m, dd) \<Rightarrow> pad2 dd @ ''-'' @ pad2 m @ ''-'' @ pad4 y)"

subsection \<open>\<^verbatim>\<open>format_date\<close>, lines 8 to 24\<close>

text \<open>
  \<^verbatim>\<open>dateutil.parser.parse(date_str, fuzzy=True)\<close> is library code that is not part of
  the program (and fills missing fields from the current day): it is a parameter
  \<open>parse\<close>, returning the date or the exception it raises.

  \<open>format_date_try\<close> is the body of the \<^verbatim>\<open>try\<close> block. \<^verbatim>\<open>re.match\<close> raises
  \<^verbatim>\<open>TypeError\<close> on a value that is not a string.
\<close>

text \<open>Line 16: \<^verbatim>\<open>f"{year}-{month}-01"\<close>.\<close>

definition date_text :: "string \<Rightarrow> string \<Rightarrow> string" where
  "date_text year month = year @ ''-'' @ month @ ''-01''"

definition format_date_try :: "(string \<Rightarrow> exn + date) \<Rightarrow> cell \<Rightarrow> exn + string" where
  "format_date_try parse v =
     (case v of
        Str date_str \<Rightarrow>
          (case re_match date_str of
             Some (year, month) \<Rightarrow>
               (case to_datetime (date_text year month) of
                  Inl e \<Rightarrow> Inl e
                | Inr d \<Rightarrow> Inr (strftime d))
           | None \<Rightarrow>
               (case parse date_str of
                  Inl e \<Rightarrow> Inl e
                | Inr d \<Rightarrow> Inr (strftime d)))
      | _ \<Rightarrow> Inl TypeError)"

text \<open>
  The whole function: the messages it sends to \<^verbatim>\<open>st.error\<close>, and the value it returns
  (\<open>None\<close> for Python's \<^verbatim>\<open>None\<close>). The \<^verbatim>\<open>except Exception\<close> clause turns every
  exception of the body into one error message and \<^verbatim>\<open>None\<close>.
\<close>

definition format_date :: "(string \<Rightarrow> exn + date) \<Rightarrow> cell \<Rightarrow> message list \<times> string option" where
  "format_date parse v =
     (if v = Null then ([], None)
      else
        (case format_date_try parse v of
           Inr s \<Rightarrow> ([], Some s)
         | Inl e \<Rightarrow> ([Error (ErrorParsingDate v e)], None)))"

text \<open>A fuzzy parser that recognises nothing, for evaluating examples.\<close>

definition parse_nothing :: "string \<Rightarrow> exn + date" where
  "parse_nothing s = Inl ParserError"

text \<open>
  The pattern as the specification words it: four digits, a space, two digits, a space,
  an opening bracket, a month name (a non-empty run of word characters), a space, an
  apostrophe, two digits and a closing bracket; anything may follow.
\<close>

definition special_pattern :: "string \<Rightarrow> string \<Rightarrow> string \<Rightarrow> string \<Rightarrow> string \<Rightarrow> string" where
  "special_pattern y m w yy rest = y @ '' '' @ m @ '' ('' @ w @ '' '' @ [CHR 0x27] @ yy @ '')'' @ rest"

definition is_special :: "string \<Rightarrow> string \<Rightarrow> string \<Rightarrow> string \<Rightarrow> bool" where
  "is_special y m w yy =
     (length y = 4 \<and> list_all is_digit y \<and> length m = 2 \<and> list_all is_digit m \<and>
      w \<noteq> [] \<and> list_all is_word w \<and> length yy = 2 \<and> list_all is_digit yy)"

section \<open>Tables and the pandas operations the program calls\<close>

text \<open>
  A \<^verbatim>\<open>DataFrame\<close>: the column names in order, and the rows. A row gives the cell
  under each column name; what it gives under a name that is no column of the table is
  never read, as every access below goes through \<open>columns\<close> first.
\<close>

type_synonym row = "string \<Rightarrow> cell"

record dataframe =
  columns :: "string list"
  rows :: "row list"

text \<open>A row from the values under the given columns, in order.\<close>

definition row_of :: "string list \<Rightarrow> cell list \<Rightarrow> row" where
  "row_of cols vals = (\<lambda>c. case map_of (zip cols vals) c of Some v \<Rightarrow> v | None \<Rightarrow> Null)"

text \<open>\<^verbatim>\<open>df.values.tolist()\<close>: the cells of the table, row by row.\<close>

definition values_of :: "dataframe \<Rightarrow> cell list list" where
  "values_of df = map (\<lambda>r. map r (columns df)) (rows df)"

text \<open>\<^verbatim>\<open>data.dropna(how='all')\<close> drops the rows whose cells are all missing.\<close>

definition dropna_all :: "dataframe \<Rightarrow> dataframe" where
  "dropna_all df = df\<lparr>rows := filter (\<lambda>r. list_ex (\<lambda>c. r c \<noteq> Null) (columns df)) (rows df)\<rparr>"

text \<open>\<^verbatim>\<open>data[col]\<close> raises \<^verbatim>\<open>KeyError\<close> when the table has no such column.\<close>

definition getitem :: "dataframe \<Rightarrow> string \<Rightarrow> exn + cell list" where
  "getitem df col =
     (if col \<in> set (columns df) then Inr (map (\<lambda>r. r col) (rows df)) else Inl (KeyError col))"

text \<open>
  \<^verbatim>\<open>data[col] = values\<close> overwrites the column where it stands, or adds it as the last
  column.
\<close>

definition setitem :: "dataframe \<Rightarrow> string \<Rightarrow> cell list \<Rightarrow> dataframe" where
  "setitem df col vals =
     \<lparr>columns = (if col \<in> set (columns df) then columns df else columns df @ [col]),
      rows = map2 (\<lambda>r v. r(col := v)) (rows df) vals\<rparr>"

text \<open>\<^verbatim>\<open>data.dropna(subset=[col])\<close> drops the rows whose cell under \<open>col\<close> is missing.\<close>

definition dropna_subset :: "string \<Rightarrow> dataframe \<Rightarrow> dataframe" where
  "dropna_subset col df = df\<lparr>rows := filter (\<lambda>r. r col \<noteq> Null) (rows df)\<rparr>"

text \<open>
  \<^verbatim>\<open>series.apply(func)\<close> calls \<open>func\<close> on each value in order; the calls' messages
  follow each other.
\<close>

definition apply_series ::
  "(cell \<Rightarrow> message list \<times> string option) \<Rightarrow> cell list \<Rightarrow> message list \<times> string option list" where
  "apply_series func vals = (concat (map (\<lambda>v. fst (func v)) vals), map (\<lambda>v. snd (func v)) vals)"

definition cell_of_option :: "string option \<Rightarrow> cell" where
  "cell_of_option v = (case v of None \<Rightarrow> Null | Some s \<Rightarrow> Str s)"

text \<open>
  \<^verbatim>\<open>pd.to_numeric(column, errors='coerce')\<close>, cell by cell: a number stays, a missing
  value stays missing, a text becomes the number it spells or, when it spells none, a
  missing value. Which texts spell which numbers is pandas' matter: the parameter
  \<open>conv\<close>.
\<close>

definition to_numeric :: "(string \<Rightarrow> rat option) \<Rightarrow> cell \<Rightarrow> cell" where
  "to_numeric conv v =
     (case v of
        Null \<Rightarrow> Null
      | Num q \<Rightarrow> Num q
      | Str s \<Rightarrow> (case conv s of Some q \<Rightarrow> Num q | None \<Rightarrow> Null))"

text \<open>\<^verbatim>\<open>data[cols] = data[cols].apply(pd.to_numeric, errors='coerce')\<close>.\<close>

definition coerce_row :: "(string \<Rightarrow> rat option) \<Rightarrow> string list \<Rightarrow> row \<Rightarrow> row" where
  "coerce_row conv cols r = (\<lambda>c. if c \<in> set cols then to_numeric conv (r c) else r c)"

definition coerce_columns :: "(string \<Rightarrow> rat option) \<Rightarrow> string list \<Rightarrow> dataframe \<Rightarrow> dataframe" where
  "coerce_columns conv cols df = df\<lparr>rows := map (coerce_row conv cols) (rows df)\<rparr>"

subsection \<open>The reductions\<close>

text \<open>
  pandas' group reductions skip missing values: they work on the numbers of the group.
  The sum of no number is 0; the mean and the median of no number are missing.
\<close>

definition numbers :: "cell list \<Rightarrow> rat list" where
  "numbers vals = List.map_filter (\<lambda>v. case v of Num q \<Rightarrow> Some q | _ \<Rightarrow> None) vals"

definition agg_sum :: "rat list \<Rightarrow> cell" where
  "agg_sum qs = Num (sum_list qs)"

definition agg_mean :: "rat list \<Rightarrow> cell" where
  "agg_mean qs = (if qs = [] then Null else Num (sum_list qs / of_nat (length qs)))"

definition agg_median :: "rat list \<Rightarrow> cell" where
  "agg_median qs =
     (if qs = [] then Null
      else
        (let s = sort qs; n = length s in
         if odd n then Num (s ! (n div 2))
         else Num ((s ! (n div 2 - 1) + s ! (n div 2)) / 2)))"

text \<open>The branches of lines 62 to 70: the reduction an \<^verbatim>\<open>agg_func\<close> name selects.\<close>

definition aggregation :: "string \<Rightarrow> (rat list \<Rightarrow> cell) option" where
  "aggregation agg_func =
     (if agg_func = ''sum'' then Some agg_sum
      else if agg_func = ''mean'' then Some agg_mean
      else if agg_func = ''median'' then Some agg_median
      else None)"

subsection \<open>Grouping\<close>

text \<open>
  \<^verbatim>\<open>groupby\<close> sorts the group keys (\<^verbatim>\<open>sort=True\<close>), column by column: numbers by
  value, texts by code point, and in a column that mixes them numbers before texts.
  Missing values never stand in a key (below); the order puts them last.
\<close>

fun cell_le :: "cell \<Rightarrow> cell \<Rightarrow> bool" where
  "cell_le (Num a) (Num b) = (a \<le> b)"
| "cell_le (Num a) (Str t) = True"
| "cell_le (Num a) Null = True"
| "cell_le (Str s) (Num b) = False"
| "cell_le (Str s) (Str t) = (s \<le> t)"
| "cell_le (Str s) Null = True"
| "cell_le Null Null = True"
| "cell_le Null (Num b) = False"
| "cell_le Null (Str t) = False"

instantiation cell :: linorder
begin

definition less_eq_cell :: "cell \<Rightarrow> cell \<Rightarrow> bool" where
  "less_eq_cell x y = cell_le x y"

definition less_cell :: "cell \<Rightarrow> cell \<Rightarrow> bool" where
  "less_cell x y = (cell_le x y \<and> \<not> cell_le y x)"

instance
proof
  fix x y z :: cell
  show "(x < y) = (x \<le> y \<and> \<not> y \<le> x)"
    by (simp add: less_cell_def less_eq_cell_def)
  show "x \<le> x"
    by (cases x) (simp_all add: less_eq_cell_def)
  show "x \<le> y \<Longrightarrow> y \<le> z \<Longrightarrow> x \<le> z"
    by (cases x; cases y; cases z) (simp_all add: less_eq_cell_def)
  show "x \<le> y \<Longrightarrow> y \<le> x \<Longrightarrow> x = y"
    by (cases x; cases y) (simp_all add: less_eq_cell_def)
  show "x \<le> y \<or> y \<le> x"
    by (cases x; cases y) (auto simp: less_eq_cell_def)
qed

end

text \<open>The key of a row: its cells under the key columns.\<close>

definition group_key :: "string list \<Rightarrow> row \<Rightarrow> cell list" where
  "group_key keys r = map r keys"

text \<open>
  \<^verbatim>\<open>data.groupby(keys)[cols].f().reset_index()\<close> for a reduction \<open>f\<close>: rows with a
  missing value in a key column are left out (\<^verbatim>\<open>dropna=True\<close>, the default); every
  other key that occurs gives one row, the keys in sorted order; the row holds the key
  and, under each of \<open>cols\<close>, the reduction of that column over the rows of the key.
\<close>

definition groupby_agg :: "(rat list \<Rightarrow> cell) \<Rightarrow> string list \<Rightarrow> string list \<Rightarrow> row list \<Rightarrow> dataframe" where
  "groupby_agg f keys cols rs =
     (let kept = filter (\<lambda>r. Null \<notin> set (group_key keys r)) rs;
          ks = sort (remdups (map (group_key keys) kept))
      in \<lparr>columns = keys @ cols,
          rows = map (\<lambda>k. row_of (keys @ cols)
                   (k @ map (\<lambda>c. f (numbers (map (\<lambda>r. r c) (filter (\<lambda>r. group_key keys r = k) kept)))) cols))
                   ks\<rparr>)"

subsection \<open>Writing the CSV\<close>

text \<open>
  \<^verbatim>\<open>aggregated_data.to_csv(index=False)\<close>: a header line and one line per row, fields
  separated by commas, lines ended by a line feed. A missing value is written as the
  empty field, a text as it is, a number as pandas prints it (the parameter \<open>repr\<close>).
  Quoting is the \<^verbatim>\<open>csv\<close> module's \<^verbatim>\<open>QUOTE_MINIMAL\<close>: a field holding a comma, a double
  quote, a line feed or a carriage return is put in double quotes, with every double
  quote in it doubled; and a record that is one empty field is written as two double
  quotes.
\<close>

definition needs_quote :: "string \<Rightarrow> bool" where
  "needs_quote s = list_ex (\<lambda>c. c = CHR '','' \<or> c = CHR 0x22 \<or> c = CHR 0x0A \<or> c = CHR 0x0D) s"

definition quote_field :: "string \<Rightarrow> string" where
  "quote_field s =
     (if needs_quote s
      then [CHR 0x22] @ concat (map (\<lambda>c. if c = CHR 0x22 then [c, c] else [c]) s) @ [CHR 0x22]
      else s)"

fun join_fields :: "string list \<Rightarrow> string" where
  "join_fields [] = []"
| "join_fields [f] = f"
| "join_fields (f # g # fs) = f @ [CHR '',''] @ join_fields (g # fs)"

definition csv_line :: "string list \<Rightarrow> string" where
  "csv_line fs =
     (if fs = [[]] then [CHR 0x22, CHR 0x22] else join_fields (map quote_field fs)) @ [CHR 0x0A]"

definition cell_text :: "(rat \<Rightarrow> string) \<Rightarrow> cell \<Rightarrow> string" where
  "cell_text repr v = (case v of Null \<Rightarrow> [] | Str s \<Rightarrow> s | Num q \<Rightarrow> repr q)"

definition to_csv :: "(rat \<Rightarrow> string) \<Rightarrow> dataframe \<Rightarrow> string" where
  "to_csv repr df =
     csv_line (columns df) @
     concat (map (\<lambda>r. csv_line (map (\<lambda>c. cell_text repr (r c)) (columns df))) (rows df))"

section \<open>Reading a CSV text back\<close>

text \<open>
  The program never reads its CSV. The round trip of the specification needs a reader;
  this one follows the specification's words, "a comma-separated table with header
  row": records end at a line feed, fields are separated by commas, and a double quote
  opens or closes a quoted stretch in which commas and line feeds are data and two
  double quotes stand for one. \<open>csv_split\<close> reads from the end of the text backwards:
  what it returns for the rest of the text begins with the record and field the current
  character belongs to.
\<close>

fun add_char :: "char \<Rightarrow> string list list \<Rightarrow> string list list" where
  "add_char c ((f # fs) # recs) = ((c # f) # fs) # recs"
| "add_char c ([] # recs) = [[c]] # recs"
| "add_char c [] = [[[c]]]"

fun new_field :: "string list list \<Rightarrow> string list list" where
  "new_field (fs # recs) = ([] # fs) # recs"
| "new_field [] = [[[], []]]"

definition new_record :: "string list list \<Rightarrow> string list list" where
  "new_record recs = [[]] # recs"

fun csv_split :: "bool \<Rightarrow> string \<Rightarrow> string list list" where
  "csv_split quoted [] = [[[]]]"
| "csv_split False (c # s) =
     (if c = CHR '','' then new_field (csv_split False s)
      else if c = CHR 0x0A then new_record (csv_split False s)
      else if c = CHR 0x22 then csv_split True s
      else add_char c (csv_split False s))"
| "csv_split True (c # s) =
     (if c = CHR 0x22 then
        (case s of
           [] \<Rightarrow> csv_split False s
         | c' # s' \<Rightarrow> if c' = CHR 0x22 then add_char c (csv_split True s') else csv_split False s)
      else add_char c (csv_split True s))"

text \<open>
  The records of a text. What follows the last line feed is a record only if it is not
  empty.
\<close>

definition parse_csv :: "string \<Rightarrow> string list list" where
  "parse_csv text = (let recs = csv_split False text in if last recs = [[]] then butlast recs else recs)"

text \<open>
  For the proofs: putting a whole text in front of the first field, and the doubling of
  the double quotes that \<open>quote_field\<close> does.
\<close>

definition add_chars :: "string \<Rightarrow> string list list \<Rightarrow> string list list" where
  "add_chars f recs = foldr add_char f recs"

definition escape :: "string \<Rightarrow> string" where
  "escape s = concat (map (\<lambda>c. if c = CHR 0x22 then [c, c] else [c]) s)"

section \<open>\<^verbatim>\<open>process_file\<close>, lines 26 to 87\<close>

text \<open>
  The uploaded file: its name and its bytes. What pandas and dateutil do is not the
  program's code; the model takes it as a record of functions: the two readers (each
  returns the table or the exception it raises; a result of \<^verbatim>\<open>read_excel\<close> that is no
  single table, as with \<^verbatim>\<open>sheet_name=None\<close>, fails at \<^verbatim>\<open>data.columns\<close> and counts as
  an exception), the fuzzy date parser, the reading of a text as a number inside
  \<^verbatim>\<open>pd.to_numeric\<close>, and the printing of a number inside \<^verbatim>\<open>to_csv\<close>.
\<close>

record uploaded_file =
  name :: string
  bytes :: string

record library =
  read_excel :: "uploaded_file \<Rightarrow> string option \<Rightarrow> exn + dataframe"
  read_csv :: "uploaded_file \<Rightarrow> exn + dataframe"
  parser_parse :: "string \<Rightarrow> exn + date"
  str_to_number :: "string \<Rightarrow> rat option"
  number_repr :: "rat \<Rightarrow> string"

text \<open>
  What a call of \<^verbatim>\<open>process_file\<close> leaves behind: its result (an exception that leaves
  the function, or the returned value, \<open>None\<close> for Python's \<^verbatim>\<open>None\<close>), the Streamlit
  calls it made, and the content written to \<^verbatim>\<open>Cleaned_Aggregated_Data.csv\<close>, if any.
\<close>

record outcome =
  result :: "exn + dataframe option"
  messages :: "message list"
  csv_file :: "string option"

definition raised :: "exn \<Rightarrow> message list \<Rightarrow> outcome" where
  "raised e ms = \<lparr>result = Inl e, messages = ms, csv_file = None\<rparr>"

definition returned_none :: "message list \<Rightarrow> outcome" where
  "returned_none ms = \<lparr>result = Inr None, messages = ms, csv_file = None\<rparr>"

definition Formatted_Month :: string where
  "Formatted_Month = ''Formatted Month''"

definition endswith :: "string \<Rightarrow> string \<Rightarrow> bool" where
  "endswith s suffix = (length suffix \<le> length s \<and> drop (length s - length suffix) s = suffix)"

text \<open>
  Lines 42 to 49, on the table that was read: drop the empty rows, normalise the date
  column into the column \<^verbatim>\<open>Formatted Month\<close>, drop the rows where that is missing.
  \<^verbatim>\<open>data[date_col]\<close> (line 46) is a \<^verbatim>\<open>KeyError\<close> when the table has no such column.
  The result is the messages of the date function and the table that is left.
\<close>

definition normalise_dates ::
  "(cell \<Rightarrow> message list \<times> string option) \<Rightarrow> string \<Rightarrow> dataframe \<Rightarrow> exn + message list \<times> dataframe" where
  "normalise_dates date_format_func date_col data0 =
     (let data1 = dropna_all data0 in
      case getitem data1 date_col of
        Inl e \<Rightarrow> Inl e
      | Inr dates \<Rightarrow>
          (let formatted = apply_series date_format_func dates;
               data2 = setitem data1 Formatted_Month (map cell_of_option (snd formatted))
           in Inr (fst formatted, dropna_subset Formatted_Month data2)))"

text \<open>
  Lines 51 to 87, on the table with its normalised dates and after the messages \<open>ms\<close>.
  \<open>group_cols\<close> and \<open>sum_cols\<close> are \<open>None\<close> for Python's \<^verbatim>\<open>None\<close>, their default.
  The exceptions that leave the function here:
  \<^item> assigning \<^verbatim>\<open>data[sum_cols]\<close> (line 59) with a name twice in \<open>sum_cols\<close> is a
    \<^verbatim>\<open>ValueError\<close> (the columns do not match the key);
  \<^item> \<^verbatim>\<open>['Formatted Month'] + group_cols\<close> is a \<^verbatim>\<open>TypeError\<close> when \<open>group_cols\<close> is
    \<^verbatim>\<open>None\<close>;
  \<^item> \<^verbatim>\<open>groupby\<close> is a \<^verbatim>\<open>KeyError\<close> for a key that is no column;
  \<^item> \<^verbatim>\<open>reset_index\<close> is a \<^verbatim>\<open>ValueError\<close> when a key column's name is there twice or
    is also a reduced column (it cannot insert a column that already exists).
\<close>

definition aggregate_selected ::
  "library \<Rightarrow> dataframe \<Rightarrow> message list \<Rightarrow> string list option \<Rightarrow> string list option \<Rightarrow> string \<Rightarrow> outcome" where
  "aggregate_selected L data3 ms group_cols sum_cols agg_func =
     (case sum_cols of
        None \<Rightarrow> returned_none (ms @ [Error NoColumnsSelected])
      | Some cs \<Rightarrow>
          if cs = [] then returned_none (ms @ [Error NoColumnsSelected])
          else
            (let missing_cols = filter (\<lambda>col. col \<notin> set (columns data3)) cs in
             if missing_cols \<noteq> [] then returned_none (ms @ [Error (MissingColumns missing_cols)])
             else if \<not> distinct cs then raised ValueError ms
             else
               (let data4 = coerce_columns (str_to_number L) cs data3 in
                case aggregation agg_func of
                  None \<Rightarrow> returned_none (ms @ [Error UnsupportedAggregation])
                | Some f \<Rightarrow>
                    (case group_cols of
                       None \<Rightarrow> raised TypeError ms
                     | Some gs \<Rightarrow>
                         (let keys = Formatted_Month # gs in
                          case find (\<lambda>k. k \<notin> set (columns data4)) keys of
                            Some k \<Rightarrow> raised (KeyError k) ms
                          | None \<Rightarrow>
                              if \<not> distinct (keys @ cs) then raised ValueError ms
                              else
                                (let aggregated_data = groupby_agg f keys cs (rows data4);
                                     csv = to_csv (number_repr L) aggregated_data
                                 in \<lparr>result = Inr (Some aggregated_data),
                                     messages = ms @ [Success, DownloadButton csv],
                                     csv_file = Some csv\<rparr>))))))"

text \<open>Lines 38 to 87: everything \<^verbatim>\<open>process_file\<close> does once the table is read.\<close>

definition process_data ::
  "library \<Rightarrow> dataframe \<Rightarrow> string \<Rightarrow> string list option \<Rightarrow> string list option \<Rightarrow> string \<Rightarrow>
   (cell \<Rightarrow> message list \<times> string option) \<Rightarrow> outcome" where
  "process_data L data0 date_col group_cols sum_cols agg_func date_format_func =
     (let available_columns = columns data0;
          ms0 = [WriteColumns available_columns]
      in
      case normalise_dates date_format_func date_col data0 of
        Inl e \<Rightarrow> raised e ms0
      | Inr (ms1, data3) \<Rightarrow> aggregate_selected L data3 (ms0 @ ms1) group_cols sum_cols agg_func)"

text \<open>
  The whole function: lines 28 to 36 choose the reader by the file name's ending, or
  report the file type and return \<^verbatim>\<open>None\<close>.
\<close>

definition process_file ::
  "library \<Rightarrow> uploaded_file \<Rightarrow> string option \<Rightarrow> string \<Rightarrow> string list option \<Rightarrow>
   string list option \<Rightarrow> string \<Rightarrow> (cell \<Rightarrow> message list \<times> string option) \<Rightarrow> outcome" where
  "process_file L file sheet_name date_col group_cols sum_cols agg_func date_format_func =
     (if endswith (name file) ''.xlsx'' then
        (case read_excel L file sheet_name of
           Inl e \<Rightarrow> raised e []
         | Inr data0 \<Rightarrow> process_data L data0 date_col group_cols sum_cols agg_func date_format_func)
      else if endswith (name file) ''.csv'' then
        (case read_csv L file of
           Inl e \<Rightarrow> raised e []
         | Inr data0 \<Rightarrow> process_data L data0 date_col group_cols sum_cols agg_func date_format_func)
      else returned_none [Error UnsupportedFileType])"

text \<open>
  The table \<^verbatim>\<open>process_file\<close> works on: the one the reader for the file's ending
  returns.
\<close>

definition reads :: "library \<Rightarrow> uploaded_file \<Rightarrow> string option \<Rightarrow> dataframe \<Rightarrow> bool" where
  "reads L file sheet_name data0 =
     (if endswith (name file) ''.xlsx'' then read_excel L file sheet_name = Inr data0
      else endswith (name file) ''.csv'' \<and> read_csv L file = Inr data0)"

section \<open>Notions for stating the properties\<close>

text \<open>
  A call produced no output: it returned \<^verbatim>\<open>None\<close>, wrote no CSV file and offered no
  download.
\<close>

definition is_download :: "message \<Rightarrow> bool" where
  "is_download m = (case m of DownloadButton payload \<Rightarrow> True | _ \<Rightarrow> False)"

definition no_output :: "outcome \<Rightarrow> bool" where
  "no_output out = (result out = Inr None \<and> csv_file out = None \<and> \<not> list_ex is_download (messages out))"

text \<open>
  The row with its normalised date under \<^verbatim>\<open>Formatted Month\<close>; the messages of the date
  function over a table (it is called on the date of every row that is not empty); and
  the table after lines 42 to 49.
\<close>

definition with_month :: "(cell \<Rightarrow> message list \<times> string option) \<Rightarrow> string \<Rightarrow> row \<Rightarrow> row" where
  "with_month func date_col r = r(Formatted_Month := cell_of_option (snd (func (r date_col))))"

definition date_messages :: "(cell \<Rightarrow> message list \<times> string option) \<Rightarrow> string \<Rightarrow> dataframe \<Rightarrow> message list" where
  "date_messages func date_col df = concat (map (\<lambda>r. fst (func (r date_col))) (rows (dropna_all df)))"

definition dated_table :: "(cell \<Rightarrow> message list \<times> string option) \<Rightarrow> string \<Rightarrow> dataframe \<Rightarrow> dataframe" where
  "dated_table func date_col df =
     \<lparr>columns = (if Formatted_Month \<in> set (columns df) then columns df else columns df @ [Formatted_Month]),
      rows = map (with_month func date_col)
               (filter (\<lambda>r. snd (func (r date_col)) \<noteq> None) (rows (dropna_all df)))\<rparr>"

text \<open>
  How a call ended: with an exception, with \<^verbatim>\<open>None\<close> (\<open>Inr False\<close>) or with a table
  (\<open>Inr True\<close>).
\<close>

definition outcome_kind :: "outcome \<Rightarrow> exn + bool" where
  "outcome_kind out =
     (case result out of Inl e \<Rightarrow> Inl e | Inr None \<Rightarrow> Inr False | Inr (Some t) \<Rightarrow> Inr True)"

text \<open>
  The aggregation key of a row of the input: its normalised date and its cells under
  the group columns; none when the date function returns \<^verbatim>\<open>None\<close>. The keys present
  after the date filtering are those of the rows of the table.
\<close>

definition row_key ::
  "(cell \<Rightarrow> message list \<times> string option) \<Rightarrow> string \<Rightarrow> string list \<Rightarrow> row \<Rightarrow> cell list option" where
  "row_key func date_col gs r =
     (case snd (func (r date_col)) of None \<Rightarrow> None | Some s \<Rightarrow> Some (Str s # map r gs))"

definition keys_after_dates ::
  "(cell \<Rightarrow> message list \<times> string option) \<Rightarrow> string \<Rightarrow> string list \<Rightarrow> dataframe \<Rightarrow> cell list list" where
  "keys_after_dates func date_col gs df = List.map_filter (row_key func date_col gs) (rows df)"

text \<open>The key of a row of the aggregated table: its cells under the key columns.\<close>

definition output_keys :: "string list \<Rightarrow> dataframe \<Rightarrow> cell list list" where
  "output_keys gs t = map (group_key (Formatted_Month # gs)) (rows t)"

section \<open>A small library and tables for evaluating examples\<close>

text \<open>
  Stand-ins for the library functions on simple inputs: a text spells a number when it
  is a non-empty run of digits, and a natural number is printed in decimal digits.
  The readers return the table stored under the file's name.
\<close>

definition simple_number :: "string \<Rightarrow> rat option" where
  "simple_number s =
     (if s \<noteq> [] \<and> list_all is_digit s then Some (of_nat (nat_of_digits s)) else None)"

fun digits_of :: "nat \<Rightarrow> nat \<Rightarrow> string" where
  "digits_of 0 n = [digit_char n]"
| "digits_of (Suc k) n =
     (if n < 10 then [digit_char n] else digits_of k (n div 10) @ [digit_char n])"

definition simple_repr :: "rat \<Rightarrow> string" where
  "simple_repr q = (let n = nat \<lfloor>q\<rfloor> in digits_of n n)"

definition simple_library :: "(string \<Rightarrow> dataframe option) \<Rightarrow> library" where
  "simple_library store =
     \<lparr>read_excel = (\<lambda>f sheet. case store (name f) of None \<Rightarrow> Inl (OtherError ''unreadable'') | Some d \<Rightarrow> Inr d),
      read_csv = (\<lambda>f. case store (name f) of None \<Rightarrow> Inl (OtherError ''unreadable'') | Some d \<Rightarrow> Inr d),
      parser_parse = parse_nothing,
      str_to_number = simple_number,
      number_repr = simple_repr\<rparr>"

text \<open>
  The table of the specification's example: two rows of May 2024 for region A, with
  sales 10 and 20.
\<close>

definition sales_columns :: "string list" where
  "sales_columns = [''Month'', ''Region'', ''Sales'']"

definition sales_table :: dataframe where
  "sales_table =
     \<lparr>columns = sales_columns,
      rows = [row_of sales_columns [Str ''2024 05 (May '24)'', Str ''A'', Num 10],
              row_of sales_columns [Str ''2024 05 (May '24)'', Str ''A'', Num 20]]\<rparr>"

definition sales_file :: uploaded_file where
  "sales_file = \<lparr>name = ''sales.csv'', bytes = []\<rparr>"

text \<open>
  A table with a missing date and a text that is no date; a table with a missing region;
  a table whose sales are partly texts.
\<close>

definition dates_table :: dataframe where
  "dates_table =
     \<lparr>columns = sales_columns,
      rows = [row_of sales_columns [Str ''2024 05 (May '24)'', Str ''A'', Num 10],
              row_of sales_columns [Null, Str ''A'', Num 5],
              row_of sales_columns [Str ''soon'', Str ''A'', Num 7]]\<rparr>"

definition regions_table :: dataframe where
  "regions_table =
     \<lparr>columns = sales_columns,
      rows = [row_of sales_columns [Str ''2024 05 (May '24)'', Null, Num 10],
              row_of sales_columns [Str ''2024 05 (May '24)'', Str ''A'', Num 20]]\<rparr>"

definition texts_table :: dataframe where
  "texts_table =
     \<lparr>columns = sales_columns,
      rows = [row_of sales_columns [Str ''2024 05 (May '24)'', Str ''A'', Num 10],
              row_of sales_columns [Str ''2024 05 (May '24)'', Str ''A'', Str ''n/a''],
              row_of sales_columns [Str ''2024 05 (May '24)'', Str ''A'', Str ''20'']]\<rparr>"

text \<open>
  Two tables that differ in the type of one cell: the region is the text \<^verbatim>\<open>7\<close> (in a
  column that also holds the text \<^verbatim>\<open>A\<close>, in a row without date), or the number 7.
\<close>

definition text_code_table :: dataframe where
  "text_code_table =
     \<lparr>columns = sales_columns,
      rows = [row_of sales_columns [Str ''2024 05 (May '24)'', Str ''7'', Num 10],
              row_of sales_columns [Null, Str ''A'', Num 5]]\<rparr>"

definition number_code_table :: dataframe where
  "number_code_table =
     \<lparr>columns = sales_columns,
      rows = [row_of sales_columns [Str ''2024 05 (May '24)'', Num 7, Num 10]]\<rparr>"

definition dates_file :: uploaded_file where
  "dates_file = \<lparr>name = ''dates.csv'', bytes = []\<rparr>"

definition regions_file :: uploaded_file where
  "regions_file = \<lparr>name = ''regions.csv'', bytes = []\<rparr>"

definition texts_file :: uploaded_file where
  "texts_file = \<lparr>name = ''texts.csv'', bytes = []\<rparr>"

definition sales_library :: library where
  "sales_library =
     simple_library [''sales.csv'' \<mapsto> sales_table, ''dates.csv'' \<mapsto> dates_table,
                     ''regions.csv'' \<mapsto> regions_table, ''texts.csv'' \<mapsto> texts_table]"

text \<open>The table a call returned, and its cells, if it returned one.\<close>

definition returned_table :: "outcome \<Rightarrow> dataframe" where
  "returned_table out = (case result out of Inr (Some t) \<Rightarrow> t | _ \<Rightarrow> \<lparr>columns = [], rows = []\<rparr>)"


definition table_values :: "outcome \<Rightarrow> cell list list option" where
  "table_values out = (case result out of Inr (Some t) \<Rightarrow> Some (values_of t) | _ \<Rightarrow> None)"
text \<open>A file that is no table, and a spreadsheet the library cannot read.\<close>

definition notes_file :: uploaded_file where
  "notes_file = \<lparr>name = ''notes.txt'', bytes = []\<rparr>"

definition book_file :: uploaded_file where
  "book_file = \<lparr>name = ''book.xlsx'', bytes = []\<rparr>"

section \<open>Properties of the date normaliser\<close>

lemma digit_char_digit_val: "is_digit c \<Longrightarrow> digit_char (digit_val c) = c"
  by (auto simp: is_digit_def digit_char_def digit_val_def)

lemma digit_val_less: "is_digit c \<Longrightarrow> digit_val c < 10"
  by (auto simp: is_digit_def digit_val_def)

lemma digit_char_mod: "digit_char (n mod 10) = digit_char n"
  by (simp add: digit_char_def)

lemma pad2_digits:
  assumes "length m = 2" "list_all is_digit m"
  shows "pad2 (nat_of_digits m) = m"
proof -
  from assms obtain a b where m: "m = [a, b]" and a: "is_digit a" and b: "is_digit b"
    by (cases m; cases "tl m") auto
  have "(10 * digit_val a + digit_val b) div 10 = digit_val a"
    using digit_val_less [OF b] by simp
  moreover have "digit_char (10 * digit_val a + digit_val b) = digit_char (digit_val b)"
    using digit_val_less [OF b] digit_char_mod [of "10 * digit_val a + digit_val b"] by simp
  ultimately show ?thesis
    using a b by (simp add: m pad2_def nat_of_digits_def digit_char_digit_val)
qed

lemma div10_step: "b < 10 \<Longrightarrow> (10 * a + b) div 10 = (a::nat)"
  by simp

lemma mod10_step: "b < 10 \<Longrightarrow> (10 * a + b) mod 10 = (b::nat)"
  by simp

lemma digit_char_step: "b < 10 \<Longrightarrow> digit_char (10 * a + b) = digit_char b"
  using digit_char_mod [of "10 * a + b"] by (simp only: mod10_step)

lemma pad4_digits:
  assumes "length y = 4" "list_all is_digit y"
  shows "pad4 (nat_of_digits y) = y"
proof -
  from assms(1) obtain a b c d where y: "y = [a, b, c, d]"
    by (auto simp: length_Suc_conv numeral_eq_Suc)
  with assms(2) have dg: "is_digit a" "is_digit b" "is_digit c" "is_digit d"
    by simp_all
  define n2 where "n2 = 10 * digit_val a + digit_val b"
  define n3 where "n3 = 10 * n2 + digit_val c"
  define n where "n = 10 * n3 + digit_val d"
  have lt: "digit_val b < 10" "digit_val c < 10" "digit_val d < 10"
    using dg by (simp_all add: digit_val_less)
  have d1: "n div 10 = n3"
    unfolding n_def by (rule div10_step [OF lt(3)])
  have d2: "n div 100 = n2"
    unfolding n3_def using d1 div10_step [OF lt(2), of n2] by (simp add: div_mult2_eq n3_def)
  have d3: "n div 1000 = digit_val a"
    using d2 div10_step [OF lt(1), of "digit_val a"]
    by (simp add: div_mult2_eq n2_def)
  have c0: "digit_char n = d"
    unfolding n_def using digit_char_step [OF lt(3), of n3] dg(4)
    by (simp add: digit_char_digit_val)
  have c1: "digit_char n3 = c"
    unfolding n3_def using digit_char_step [OF lt(2), of n2] dg(3)
    by (simp add: digit_char_digit_val)
  have c2: "digit_char n2 = b"
    unfolding n2_def using digit_char_step [OF lt(1), of "digit_val a"] dg(2)
    by (simp add: digit_char_digit_val)
  have "nat_of_digits y = n"
    by (simp add: y nat_of_digits_def n_def n3_def n2_def)
  then show ?thesis
    using dg(1) by (simp add: y pad4_def d1 d2 d3 c0 c1 c2 digit_char_digit_val)
qed

lemma not_word_space: "\<not> is_word (CHR '' '')"
  by (simp add: is_word_def)

lemma digits_append:
  "length y = n \<Longrightarrow> list_all is_digit y \<Longrightarrow> digits n (y @ r) = Some (y, r)"
  by (simp add: digits_def)

lemma lit_Cons: "lit c (c # r) = Some r"
  by (simp add: lit_def)

lemma word_plus_append:
  assumes "w \<noteq> []" "list_all is_word w"
  shows "word_plus (w @ CHR '' '' # r) = Some (CHR '' '' # r)"
proof -
  have all: "\<And>x. x \<in> set w \<Longrightarrow> is_word x"
    using assms(2) by (simp add: list_all_iff)
  have "takeWhile is_word (w @ CHR '' '' # r) = w"
    using all by (simp add: takeWhile_append2 not_word_space)
  moreover have "dropWhile is_word (w @ CHR '' '' # r) = CHR '' '' # r"
    using all by (simp add: dropWhile_append2 not_word_space)
  ultimately show ?thesis
    using assms(1) by (simp add: word_plus_def)
qed

lemma re_match_special:
  assumes "is_special y m w yy"
  shows "re_match (special_pattern y m w yy rest) = Some (y, m)"
proof -
  from assms have y: "length y = 4" "list_all is_digit y"
    and m: "length m = 2" "list_all is_digit m"
    and w: "w \<noteq> []" "list_all is_word w"
    and yy: "length yy = 2" "list_all is_digit yy"
    by (simp_all add: is_special_def)
  show ?thesis
    unfolding re_match_def special_pattern_def
    by (simp add: digits_append [OF y] digits_append [OF m] digits_append [OF yy]
        lit_Cons word_plus_append [OF w])
qed

lemma digits_01: "nat_of_digits ''01'' = 1" "is_digit (CHR ''0'')" "is_digit (CHR ''1'')"
  by (simp_all add: nat_of_digits_def digit_val_def is_digit_def)

lemma to_datetime_first_of_month:
  assumes "length y = 4" "list_all is_digit y" "length m = 2" "list_all is_digit m"
  shows "to_datetime (date_text y m) =
     (if \<not> valid_date (nat_of_digits y, nat_of_digits m, 1) then Inl ValueError
      else if \<not> in_timestamp_bounds (nat_of_digits y, nat_of_digits m, 1) then Inl OutOfBoundsDatetime
      else Inr (nat_of_digits y, nat_of_digits m, 1))"
proof -
  let ?s = "y @ ''-'' @ m @ ''-01''"
  have len: "length ?s = 10" using assms by simp
  have t4: "take 4 ?s = y" using assms by simp
  have d5: "drop 5 ?s = m @ ''-01''" using assms by simp
  have t2: "take 2 (drop 5 ?s) = m" unfolding d5 using assms by simp
  have d8: "drop 8 ?s = ''01''" using assms by simp
  have n4: "?s ! 4 = CHR ''-''" using assms by (simp add: nth_append)
  have n7: "?s ! 7 = CHR ''-''" using assms by (simp add: nth_append)
  show ?thesis
    unfolding to_datetime_def date_text_def Let_def len t4 t2 d8 n4 n7
    using assms by (simp add: digits_01)
qed

lemma valid_first_of_month:
  "valid_date (y, m, 1) = (1 \<le> y \<and> 1 \<le> m \<and> m \<le> 12)"
  by (auto simp: valid_date_def days_in_month_def)

lemma bounds_first_of_month:
  "in_timestamp_bounds (y, m, 1) =
     ((1677 < y \<or> (y = 1677 \<and> 10 \<le> m)) \<and> (y < 2262 \<or> (y = 2262 \<and> m \<le> 4)))"
  by (auto simp: in_timestamp_bounds_def date_le_def)

section \<open>Properties of the table operations\<close>

lemma process_file_reads:
  "reads L file sheet_name df \<Longrightarrow>
   process_file L file sheet_name date_col group_cols sum_cols agg_func func =
   process_data L df date_col group_cols sum_cols agg_func func"
  by (auto simp: reads_def process_file_def split: if_splits)

lemma normalise_dates_KeyError:
  "date_col \<notin> set (columns df) \<Longrightarrow> normalise_dates func date_col df = Inl (KeyError date_col)"
  by (simp add: normalise_dates_def getitem_def dropna_all_def)

lemma map2_same: "map2 h xs (map g xs) = map (\<lambda>x. h x (g x)) xs"
  by (induction xs) simp_all

lemma cell_of_option_Null: "(cell_of_option v \<noteq> Null) = (v \<noteq> None)"
  by (cases v) (simp_all add: cell_of_option_def)

lemma normalise_dates_Inr:
  assumes "date_col \<in> set (columns df)"
  shows "normalise_dates func date_col df =
         Inr (date_messages func date_col df, dated_table func date_col df)"
proof -
  let ?rs = "rows (dropna_all df)"
  have cols: "columns (dropna_all df) = columns df"
    by (simp add: dropna_all_def)
  have "map2 (\<lambda>r v. r(Formatted_Month := v)) ?rs
          (map cell_of_option (map (\<lambda>v. snd (func v)) (map (\<lambda>r. r date_col) ?rs))) =
        map (with_month func date_col) ?rs"
    by (simp add: map2_same with_month_def)
  moreover have "filter (\<lambda>r. r Formatted_Month \<noteq> Null) (map (with_month func date_col) ?rs) =
        map (with_month func date_col) (filter (\<lambda>r. snd (func (r date_col)) \<noteq> None) ?rs)"
    by (simp add: filter_map comp_def with_month_def cell_of_option_Null)
  ultimately show ?thesis
    using assms
    by (simp add: normalise_dates_def getitem_def cols apply_series_def setitem_def
        dropna_subset_def date_messages_def dated_table_def Let_def comp_def)
qed

lemma format_date_Null: "format_date parse Null = ([], None)"
  by (simp add: format_date_def)

lemma format_date_rows_nonempty:
  assumes "date_col \<in> set (columns df)"
  shows "filter (\<lambda>r. snd (format_date parse (r date_col)) \<noteq> None) (rows (dropna_all df)) =
         filter (\<lambda>r. snd (format_date parse (r date_col)) \<noteq> None) (rows df)"
proof -
  have "\<And>r. snd (format_date parse (r date_col)) \<noteq> None \<Longrightarrow> list_ex (\<lambda>c. r c \<noteq> Null) (columns df)"
  proof -
    fix r assume "snd (format_date parse (r date_col)) \<noteq> None"
    then have "r date_col \<noteq> Null" by (auto simp: format_date_Null)
    with assms show "list_ex (\<lambda>c. r c \<noteq> Null) (columns df)"
      by (auto simp: list_ex_iff)
  qed
  then show ?thesis
    by (auto simp: dropna_all_def intro: filter_cong)
qed

lemma process_data_KeyError:
  "date_col \<notin> set (columns df) \<Longrightarrow>
   process_data L df date_col group_cols sum_cols agg_func func =
   raised (KeyError date_col) [WriteColumns (columns df)]"
  by (simp add: process_data_def normalise_dates_KeyError)

lemma process_data_dated:
  "date_col \<in> set (columns df) \<Longrightarrow>
   process_data L df date_col group_cols sum_cols agg_func func =
   aggregate_selected L (dated_table func date_col df)
     (WriteColumns (columns df) # date_messages func date_col df) group_cols sum_cols agg_func"
  by (simp add: process_data_def normalise_dates_Inr)

lemma aggregate_selected_missing:
  assumes "filter (\<lambda>col. col \<notin> set (columns d)) cs \<noteq> []"
  shows "aggregate_selected L d ms group_cols (Some cs) agg_func =
         returned_none (ms @ [Error (MissingColumns (filter (\<lambda>col. col \<notin> set (columns d)) cs))])"
proof -
  from assms have "cs \<noteq> []" by auto
  with assms show ?thesis
    by (simp add: aggregate_selected_def Let_def)
qed

lemma aggregate_selected_unsupported:
  assumes "cs \<noteq> []" "set cs \<subseteq> set (columns d)" "distinct cs" "aggregation agg_func = None"
  shows "aggregate_selected L d ms group_cols (Some cs) agg_func =
         returned_none (ms @ [Error UnsupportedAggregation])"
proof -
  have "filter (\<lambda>col. col \<notin> set (columns d)) cs = []"
    using assms(2) by (auto simp: filter_empty_conv)
  with assms show ?thesis
    by (simp add: aggregate_selected_def Let_def)
qed

lemma aggregate_selected_success:
  assumes "result (aggregate_selected L d ms group_cols sum_cols agg_func) = Inr (Some t)"
  shows "\<exists>cs gs f. sum_cols = Some cs \<and> group_cols = Some gs \<and> aggregation agg_func = Some f \<and>
           cs \<noteq> [] \<and> set cs \<subseteq> set (columns d) \<and> set (Formatted_Month # gs) \<subseteq> set (columns d) \<and>
           distinct (Formatted_Month # gs @ cs) \<and>
           t = groupby_agg f (Formatted_Month # gs) cs (rows (coerce_columns (str_to_number L) cs d)) \<and>
           aggregate_selected L d ms group_cols sum_cols agg_func =
             \<lparr>result = Inr (Some t),
              messages = ms @ [Success, DownloadButton (to_csv (number_repr L) t)],
              csv_file = Some (to_csv (number_repr L) t)\<rparr>"
proof -
  have cols: "\<And>cs. columns (coerce_columns (str_to_number L) cs d) = columns d"
    by (simp add: coerce_columns_def)
  from assms obtain cs where sc: "sum_cols = Some cs"
    by (cases sum_cols) (simp_all add: aggregate_selected_def returned_none_def)
  from assms sc have ne: "cs \<noteq> []"
    by (auto simp: aggregate_selected_def returned_none_def)
  from assms sc ne have miss: "filter (\<lambda>col. col \<notin> set (columns d)) cs = []"
    by (auto simp: aggregate_selected_def returned_none_def Let_def split: if_splits)
  from assms sc ne miss have dist: "distinct cs"
    by (auto simp: aggregate_selected_def raised_def Let_def split: if_splits)
  from assms sc ne miss dist obtain f where f: "aggregation agg_func = Some f"
    by (cases "aggregation agg_func") (simp_all add: aggregate_selected_def returned_none_def Let_def)
  from assms sc ne miss dist f obtain gs where gs: "group_cols = Some gs"
    by (cases group_cols) (simp_all add: aggregate_selected_def raised_def Let_def)
  from assms sc ne miss dist f gs
  have fnd: "find (\<lambda>k. k \<notin> set (columns d)) (Formatted_Month # gs) = None"
    by (cases "find (\<lambda>k. k \<notin> set (columns d)) (Formatted_Month # gs)")
       (simp_all add: aggregate_selected_def raised_def Let_def cols del: find.simps)
  from assms sc ne miss dist f gs fnd have dist2: "distinct (Formatted_Month # gs @ cs)"
    by (auto simp: aggregate_selected_def raised_def Let_def cols simp del: find.simps split: if_splits)
  from assms sc ne miss dist f gs fnd dist2
  have t: "t = groupby_agg f (Formatted_Month # gs) cs (rows (coerce_columns (str_to_number L) cs d))"
    by (simp add: aggregate_selected_def Let_def cols del: find.simps)
  have "aggregate_selected L d ms group_cols sum_cols agg_func =
             \<lparr>result = Inr (Some t),
              messages = ms @ [Success, DownloadButton (to_csv (number_repr L) t)],
              csv_file = Some (to_csv (number_repr L) t)\<rparr>"
    using sc ne miss dist f gs fnd dist2 t
    by (simp add: aggregate_selected_def Let_def cols del: find.simps)
  moreover have "set cs \<subseteq> set (columns d)"
    using miss by (auto simp: filter_empty_conv)
  moreover have "set (Formatted_Month # gs) \<subseteq> set (columns d)"
    using fnd unfolding find_None_iff by auto
  ultimately show ?thesis
    using sc gs f ne dist2 t by blast
qed

lemma columns_coerce: "columns (coerce_columns conv cs d) = columns d"
  by (simp add: coerce_columns_def)

lemma aggregate_selected_result_ms:
  "result (aggregate_selected L d ms group_cols sum_cols agg_func) =
   result (aggregate_selected L d ms' group_cols sum_cols agg_func)"
  by (auto simp: aggregate_selected_def Let_def returned_none_def raised_def
      split: option.split simp del: find.simps)

lemma aggregate_selected_csv_ms:
  "csv_file (aggregate_selected L d ms group_cols sum_cols agg_func) =
   csv_file (aggregate_selected L d ms' group_cols sum_cols agg_func)"
  by (auto simp: aggregate_selected_def Let_def returned_none_def raised_def
      split: option.split simp del: find.simps)

lemma aggregate_selected_kind:
  assumes "columns d = columns d'"
  shows "outcome_kind (aggregate_selected L d ms group_cols sum_cols agg_func) =
         outcome_kind (aggregate_selected L d' ms' group_cols sum_cols agg_func)"
  using assms
  by (auto simp: aggregate_selected_def Let_def returned_none_def raised_def outcome_kind_def
      columns_coerce split: option.split simp del: find.simps)

lemma columns_dated_table:
  "columns df = columns df' \<Longrightarrow> columns (dated_table func date_col df) = columns (dated_table func' date_col' df')"
  by (simp add: dated_table_def)

lemma process_data_kind:
  assumes "columns df = columns df'"
  shows "outcome_kind (process_data L df date_col group_cols sum_cols agg_func func) =
         outcome_kind (process_data L df' date_col group_cols sum_cols agg_func func')"
proof (cases "date_col \<in> set (columns df)")
  case True
  then show ?thesis
    using assms aggregate_selected_kind [OF columns_dated_table [OF assms]]
    by (simp add: process_data_dated)
next
  case False
  then show ?thesis
    using assms by (simp add: process_data_KeyError outcome_kind_def raised_def)
qed

lemma format_date_no_download: "\<not> list_ex is_download (fst (format_date parse v))"
  by (simp add: format_date_def is_download_def split: sum.split)

lemma date_messages_no_download:
  "\<not> list_ex is_download (date_messages (format_date parse) date_col df)"
  using format_date_no_download [of parse]
  by (auto simp: date_messages_def list_ex_iff)

lemma columns_dated_table_set:
  "set (columns (dated_table func date_col df)) = insert Formatted_Month (set (columns df))"
  by (auto simp: dated_table_def)

lemma reads_sales: "reads sales_library sales_file sheet_name sales_table"
  by (simp add: reads_def sales_library_def simple_library_def sales_file_def endswith_def)

lemma format_date_may_2024:
  "format_date parse_nothing (Str ''2024 05 (May '24)'') = ([], Some ''01-05-2024'')"
  by code_simp

lemma sales_dates:
  "date_messages (format_date parse_nothing) ''Month'' sales_table = []"
  by (simp add: date_messages_def dropna_all_def sales_table_def sales_columns_def row_of_def
      format_date_may_2024)

lemma aggregation_None: "agg_func \<notin> {''sum'', ''mean'', ''median''} \<Longrightarrow> aggregation agg_func = None"
  by (simp add: aggregation_def)

lemma endswith_last:
  assumes "endswith s suffix" "suffix \<noteq> []"
  shows "last s = last suffix"
proof -
  from assms(1) have "s = take (length s - length suffix) s @ suffix"
    by (simp add: endswith_def) (metis append_take_drop_id)
  then have "last s = last (take (length s - length suffix) s @ suffix)" by simp
  also have "\<dots> = last suffix" using assms(2) by simp
  finally show ?thesis .
qed

lemma endswith_csv_not_xlsx: "endswith s ''.csv'' \<Longrightarrow> \<not> endswith s ''.xlsx''"
  using endswith_last [of s "''.csv''"] endswith_last [of s "''.xlsx''"] by auto

lemma no_output_returned_none: "\<not> list_ex is_download ms \<Longrightarrow> no_output (returned_none ms)"
  by (simp add: no_output_def returned_none_def)

lemma dated_table_format_date:
  assumes "date_col \<in> set (columns df)"
  shows "dated_table (format_date parse) date_col df =
     \<lparr>columns = (if Formatted_Month \<in> set (columns df) then columns df else columns df @ [Formatted_Month]),
      rows = map (with_month (format_date parse) date_col)
               (filter (\<lambda>r. snd (format_date parse (r date_col)) \<noteq> None) (rows df))\<rparr>"
  unfolding dated_table_def format_date_rows_nonempty [OF assms] by (rule refl)

lemma dated_table_filter_rows:
  assumes "date_col \<in> set (columns df)"
    and "\<And>r. snd (format_date parse (r date_col)) \<noteq> None \<Longrightarrow> P r"
  shows "dated_table (format_date parse) date_col (df\<lparr>rows := filter P (rows df)\<rparr>) =
         dated_table (format_date parse) date_col df"
proof -
  have c: "date_col \<in> set (columns (df\<lparr>rows := filter P (rows df)\<rparr>))"
    using assms(1) by simp
  have "filter (\<lambda>r. P r \<and> snd (format_date parse (r date_col)) \<noteq> None) (rows df) =
        filter (\<lambda>r. snd (format_date parse (r date_col)) \<noteq> None) (rows df)"
    using assms(2) by (auto intro: filter_cong)
  then show ?thesis
    by (simp add: dated_table_format_date [OF c] dated_table_format_date [OF assms(1)])
qed

lemma process_data_filter_rows:
  assumes "\<And>r. snd (format_date parse (r date_col)) \<noteq> None \<Longrightarrow> P r"
  shows "result (process_data L (df\<lparr>rows := filter P (rows df)\<rparr>) date_col group_cols sum_cols agg_func (format_date parse)) =
         result (process_data L df date_col group_cols sum_cols agg_func (format_date parse))"
    and "csv_file (process_data L (df\<lparr>rows := filter P (rows df)\<rparr>) date_col group_cols sum_cols agg_func (format_date parse)) =
         csv_file (process_data L df date_col group_cols sum_cols agg_func (format_date parse))"
proof -
  let ?df' = "df\<lparr>rows := filter P (rows df)\<rparr>"
  show "result (process_data L ?df' date_col group_cols sum_cols agg_func (format_date parse)) =
         result (process_data L df date_col group_cols sum_cols agg_func (format_date parse))"
  proof (cases "date_col \<in> set (columns df)")
    case True
    then have c: "date_col \<in> set (columns ?df')" by simp
    have dt: "dated_table (format_date parse) date_col ?df' = dated_table (format_date parse) date_col df"
      using True assms by (rule dated_table_filter_rows)
    show ?thesis
      unfolding process_data_dated [OF c] process_data_dated [OF True] dt
      by (rule aggregate_selected_result_ms)
  next
    case False
    then show ?thesis by (simp add: process_data_KeyError)
  qed
  show "csv_file (process_data L ?df' date_col group_cols sum_cols agg_func (format_date parse)) =
         csv_file (process_data L df date_col group_cols sum_cols agg_func (format_date parse))"
  proof (cases "date_col \<in> set (columns df)")
    case True
    then have c: "date_col \<in> set (columns ?df')" by simp
    have dt: "dated_table (format_date parse) date_col ?df' = dated_table (format_date parse) date_col df"
      using True assms by (rule dated_table_filter_rows)
    show ?thesis
      unfolding process_data_dated [OF c] process_data_dated [OF True] dt
      by (rule aggregate_selected_csv_ms)
  next
    case False
    then show ?thesis by (simp add: process_data_KeyError)
  qed
qed

lemma reads_dates: "reads sales_library dates_file sheet_name dates_table"
  by (simp add: reads_def sales_library_def simple_library_def dates_file_def endswith_def)

lemma reads_regions: "reads sales_library regions_file sheet_name regions_table"
  by (simp add: reads_def sales_library_def simple_library_def regions_file_def endswith_def)

lemma reads_texts: "reads sales_library texts_file sheet_name texts_table"
  by (simp add: reads_def sales_library_def simple_library_def texts_file_def endswith_def)

lemma format_date_soon:
  "format_date parse_nothing (Str ''soon'') = ([Error (ErrorParsingDate (Str ''soon'') ParserError)], None)"
  by code_simp

lemma format_date_try_soon: "format_date_try parse_nothing (Str ''soon'') = Inl ParserError"
  by code_simp

lemma dates_values:
  "table_values (process_data sales_library dates_table ''Month'' (Some [''Region'']) (Some [''Sales''])
     ''sum'' (format_date parse_nothing)) = Some [[Str ''01-05-2024'', Str ''A'', Num 10]]"
  by code_simp

lemma dates_messages:
  "messages (process_data sales_library dates_table ''Month'' (Some [''Region'']) (Some [''Sales''])
     ''sum'' (format_date parse_nothing)) =
   [WriteColumns sales_columns, Error (ErrorParsingDate (Str ''soon'') ParserError), Success,
    DownloadButton ''Formatted Month,Region,Sales\<newline>01-05-2024,A,10\<newline>'']"
  by code_simp

lemma row_of_key_columns:
  assumes "distinct keys" "length k = length keys"
  shows "map (row_of (keys @ cols) (k @ vals)) keys = k"
proof (rule nth_equalityI)
  show "length (map (row_of (keys @ cols) (k @ vals)) keys) = length k"
    using assms(2) by simp
next
  fix i assume "i < length (map (row_of (keys @ cols) (k @ vals)) keys)"
  then have i: "i < length k" using assms(2) by simp
  have "map_of (zip keys k) (keys ! i) = Some (k ! i)"
    using assms i by (simp add: map_of_zip_nth)
  then have "row_of (keys @ cols) (k @ vals) (keys ! i) = k ! i"
    using assms(2) by (simp add: row_of_def)
  then show "map (row_of (keys @ cols) (k @ vals)) keys ! i = k ! i"
    using i assms(2) by simp
qed

lemma row_of_value_column:
  assumes "length k = length keys" "c \<in> set cols" "c \<notin> set keys"
  shows "row_of (keys @ cols) (k @ map g cols) c = g c"
proof -
  have none: "map_of (zip keys k) c = None"
    using assms(1,3) by simp
  show ?thesis
    using assms(1,2) by (simp add: row_of_def map_of_zip_map map_add_def none)
qed

lemma rows_coerce_dated:
  assumes "date_col \<in> set (columns df)"
  shows "rows (coerce_columns conv cs (dated_table (format_date parse) date_col df)) =
         map (\<lambda>r. coerce_row conv cs (with_month (format_date parse) date_col r))
           (filter (\<lambda>r. snd (format_date parse (r date_col)) \<noteq> None) (rows df))"
  by (simp add: coerce_columns_def dated_table_format_date [OF assms] comp_def)

lemma group_key_prepared:
  assumes "distinct (Formatted_Month # gs @ cs)"
  shows "group_key (Formatted_Month # gs) (coerce_row conv cs (with_month func date_col r)) =
         cell_of_option (snd (func (r date_col))) # map r gs"
proof -
  have fm: "Formatted_Month \<notin> set cs" "Formatted_Month \<notin> set gs"
    using assms by auto
  have g: "\<And>g. g \<in> set gs \<Longrightarrow> g \<notin> set cs \<and> g \<noteq> Formatted_Month"
    using assms by auto
  have "map (coerce_row conv cs (with_month func date_col r)) gs = map r gs"
    using g by (auto simp: coerce_row_def with_month_def)
  then show ?thesis
    using fm by (simp add: group_key_def coerce_row_def with_month_def)
qed

lemma group_key_prepared_Some:
  assumes "distinct (Formatted_Month # gs @ cs)" "snd (func (r date_col)) = Some s"
  shows "group_key (Formatted_Month # gs) (coerce_row conv cs (with_month func date_col r)) =
         Str s # map r gs"
  using group_key_prepared [OF assms(1), of conv func date_col r] assms(2)
  by (simp add: cell_of_option_def)

lemma value_prepared:
  assumes "distinct (Formatted_Month # gs @ cs)" "c \<in> set cs"
  shows "coerce_row conv cs (with_month func date_col r) c = to_numeric conv (r c)"
proof -
  have "c \<noteq> Formatted_Month" using assms by auto
  then show ?thesis
    using assms(2) by (simp add: coerce_row_def with_month_def)
qed

lemma columns_groupby: "columns (groupby_agg f keys cols rs) = keys @ cols"
  by (simp add: groupby_agg_def Let_def)

lemma length_group_key: "length (group_key keys r) = length keys"
  by (simp add: group_key_def)

lemma group_key_row_of:
  assumes "distinct keys" "length k = length keys"
  shows "group_key keys (row_of (keys @ cols) (k @ vals)) = k"
  using row_of_key_columns [OF assms] by (simp add: group_key_def)

lemma sorted_keys_length:
  assumes "k \<in> set (sort (remdups (map (group_key keys) rs)))"
  shows "length k = length keys"
  using assms by (auto simp: length_group_key)

lemma groupby_output_keys:
  assumes "distinct keys"
  shows "map (group_key keys) (rows (groupby_agg f keys cols rs)) =
         sort (remdups (map (group_key keys) (filter (\<lambda>r. Null \<notin> set (group_key keys r)) rs)))"
proof -
  let ?ks = "sort (remdups (map (group_key keys) (filter (\<lambda>r. Null \<notin> set (group_key keys r)) rs)))"
  let ?kept = "filter (\<lambda>r. Null \<notin> set (group_key keys r)) rs"
  define g where "g = (\<lambda>k. map (\<lambda>c. f (numbers (map (\<lambda>r. r c)
      (filter (\<lambda>r. group_key keys r = k) ?kept)))) cols)"
  have "rows (groupby_agg f keys cols rs) = map (\<lambda>k. row_of (keys @ cols) (k @ g k)) ?ks"
    by (simp add: groupby_agg_def Let_def g_def)
  then have "map (group_key keys) (rows (groupby_agg f keys cols rs)) =
        map (\<lambda>k. group_key keys (row_of (keys @ cols) (k @ g k))) ?ks"
    by (simp add: comp_def)
  also have "\<dots> = ?ks"
  proof (rule map_idI)
    fix k assume "k \<in> set ?ks"
    then have "length k = length keys" by (rule sorted_keys_length)
    then show "group_key keys (row_of (keys @ cols) (k @ g k)) = k"
      using assms by (rule group_key_row_of [rotated])
  qed
  finally show ?thesis .
qed

lemma groupby_row:
  assumes "out \<in> set (rows (groupby_agg f keys cols rs))"
  shows "\<exists>k. k \<in> set (map (group_key keys) (filter (\<lambda>r. Null \<notin> set (group_key keys r)) rs)) \<and>
             out = row_of (keys @ cols)
                     (k @ map (\<lambda>c. f (numbers (map (\<lambda>r. r c)
                        (filter (\<lambda>r. group_key keys r = k)
                           (filter (\<lambda>r. Null \<notin> set (group_key keys r)) rs))))) cols)"
  using assms by (auto simp: groupby_agg_def Let_def)

lemma groupby_value:
  assumes "out \<in> set (rows (groupby_agg f keys cols rs))"
    and "distinct (keys @ cols)" and "c \<in> set cols"
  shows "Null \<notin> set (group_key keys out) \<and>
         out c = f (numbers (map (\<lambda>r. r c) (filter (\<lambda>r. group_key keys r = group_key keys out) rs)))"
proof -
  let ?K = "\<lambda>r. Null \<notin> set (group_key keys r)"
  from groupby_row [OF assms(1)] obtain k where
    k: "k \<in> set (map (group_key keys) (filter ?K rs))"
    and out: "out = row_of (keys @ cols)
                (k @ map (\<lambda>c. f (numbers (map (\<lambda>r. r c) (filter (\<lambda>r. group_key keys r = k) (filter ?K rs))))) cols)"
    by blast
  from k have len: "length k = length keys" and nonull: "Null \<notin> set k"
    by (auto simp: length_group_key)
  have dk: "distinct keys" and ck: "c \<notin> set keys"
    using assms(2,3) by auto
  have key: "group_key keys out = k"
    unfolding out by (rule group_key_row_of [OF dk len])
  have "filter (\<lambda>r. group_key keys r = k) (filter ?K rs) = filter (\<lambda>r. group_key keys r = k) rs"
    using nonull by (auto intro: filter_cong)
  then have "out c = f (numbers (map (\<lambda>r. r c) (filter (\<lambda>r. group_key keys r = k) rs)))"
    unfolding out using row_of_value_column [OF len assms(3) ck] by simp
  then show ?thesis
    using key nonull by simp
qed

lemma groupby_agg_kept:
  assumes "filter (\<lambda>r. Null \<notin> set (group_key keys r)) rs = filter (\<lambda>r. Null \<notin> set (group_key keys r)) rs'"
  shows "groupby_agg f keys cols rs = groupby_agg f keys cols rs'"
  using assms by (simp add: groupby_agg_def)

lemma aggregate_selected_cong:
  assumes "columns d = columns d'"
    and "\<And>f gs cs. group_cols = Some gs \<Longrightarrow> sum_cols = Some cs \<Longrightarrow> distinct (Formatted_Month # gs @ cs) \<Longrightarrow>
           groupby_agg f (Formatted_Month # gs) cs (rows (coerce_columns (str_to_number L) cs d)) =
           groupby_agg f (Formatted_Month # gs) cs (rows (coerce_columns (str_to_number L) cs d'))"
  shows "result (aggregate_selected L d ms group_cols sum_cols agg_func) =
         result (aggregate_selected L d' ms' group_cols sum_cols agg_func) \<and>
         csv_file (aggregate_selected L d ms group_cols sum_cols agg_func) =
         csv_file (aggregate_selected L d' ms' group_cols sum_cols agg_func)"
proof (cases sum_cols)
  case None
  then show ?thesis by (simp add: aggregate_selected_def returned_none_def)
next
  case (Some cs)
  note sc = this
  show ?thesis
  proof (cases group_cols)
    case None
    then show ?thesis
      using sc assms(1)
      by (auto simp: aggregate_selected_def Let_def returned_none_def raised_def columns_coerce
          split: option.split simp del: find.simps)
  next
    case (Some gs)
    show ?thesis
    proof (cases "distinct (Formatted_Month # gs @ cs)")
      case True
      have "\<And>f. groupby_agg f (Formatted_Month # gs) cs (rows (coerce_columns (str_to_number L) cs d)) =
           groupby_agg f (Formatted_Month # gs) cs (rows (coerce_columns (str_to_number L) cs d'))"
        using assms(2) [OF Some sc True] .
      then show ?thesis
        using sc Some assms(1)
        by (auto simp: aggregate_selected_def Let_def returned_none_def raised_def columns_coerce
            split: option.split simp del: find.simps distinct.simps)
    next
      case False
      then show ?thesis
        using sc Some assms(1)
        by (auto simp: aggregate_selected_def Let_def returned_none_def raised_def columns_coerce
            split: option.split simp del: find.simps distinct.simps)
    qed
  qed
qed

lemma kept_prepared:
  assumes "distinct (Formatted_Month # gs @ cs)"
  shows "filter (\<lambda>r. Null \<notin> set (group_key (Formatted_Month # gs) r))
           (map (\<lambda>r. coerce_row conv cs (with_month func date_col r))
              (filter (\<lambda>r. snd (func (r date_col)) \<noteq> None) rs)) =
         map (\<lambda>r. coerce_row conv cs (with_month func date_col r))
           (filter (\<lambda>r. snd (func (r date_col)) \<noteq> None \<and> list_all (\<lambda>g. r g \<noteq> Null) gs) rs)"
proof -
  have *: "\<And>r. snd (func (r date_col)) \<noteq> None \<Longrightarrow>
      (Null \<notin> set (group_key (Formatted_Month # gs) (coerce_row conv cs (with_month func date_col r)))) =
      list_all (\<lambda>g. r g \<noteq> Null) gs"
    unfolding group_key_prepared [OF assms]
    by (auto simp: cell_of_option_def list_all_iff) (metis imageI)
  have "filter (\<lambda>r. snd (func (r date_col)) \<noteq> None \<and>
                 Null \<notin> set (group_key (Formatted_Month # gs) (coerce_row conv cs (with_month func date_col r)))) rs =
        filter (\<lambda>r. snd (func (r date_col)) \<noteq> None \<and> list_all (\<lambda>g. r g \<noteq> Null) gs) rs"
    by (rule filter_cong) (use * in blast)+
  then show ?thesis
    by (simp only: filter_map comp_def filter_filter)
qed

lemma process_data_success:
  assumes "result (process_data L df date_col group_cols sum_cols agg_func (format_date parse)) = Inr (Some t)"
  shows "\<exists>cs gs f. sum_cols = Some cs \<and> group_cols = Some gs \<and> aggregation agg_func = Some f \<and>
           date_col \<in> set (columns df) \<and> cs \<noteq> [] \<and> distinct (Formatted_Month # gs @ cs) \<and>
           t = groupby_agg f (Formatted_Month # gs) cs
                 (map (\<lambda>r. coerce_row (str_to_number L) cs (with_month (format_date parse) date_col r))
                    (filter (\<lambda>r. snd (format_date parse (r date_col)) \<noteq> None) (rows df))) \<and>
           messages (process_data L df date_col group_cols sum_cols agg_func (format_date parse)) =
             WriteColumns (columns df) # date_messages (format_date parse) date_col df @
               [Success, DownloadButton (to_csv (number_repr L) t)] \<and>
           csv_file (process_data L df date_col group_cols sum_cols agg_func (format_date parse)) =
             Some (to_csv (number_repr L) t)"
proof -
  have dc: "date_col \<in> set (columns df)"
  proof (rule ccontr)
    assume "date_col \<notin> set (columns df)"
    then show False using assms by (simp add: process_data_KeyError raised_def)
  qed
  let ?d = "dated_table (format_date parse) date_col df"
  let ?ms = "WriteColumns (columns df) # date_messages (format_date parse) date_col df"
  have r: "result (aggregate_selected L ?d ?ms group_cols sum_cols agg_func) = Inr (Some t)"
    using assms by (simp add: process_data_dated [OF dc])
  from aggregate_selected_success [OF r] obtain cs gs f where
    *: "sum_cols = Some cs" "group_cols = Some gs" "aggregation agg_func = Some f" "cs \<noteq> []"
       "distinct (Formatted_Month # gs @ cs)"
       "t = groupby_agg f (Formatted_Month # gs) cs (rows (coerce_columns (str_to_number L) cs ?d))"
       "aggregate_selected L ?d ?ms group_cols sum_cols agg_func =
             \<lparr>result = Inr (Some t),
              messages = ?ms @ [Success, DownloadButton (to_csv (number_repr L) t)],
              csv_file = Some (to_csv (number_repr L) t)\<rparr>"
    by blast
  have "messages (process_data L df date_col group_cols sum_cols agg_func (format_date parse)) =
          ?ms @ [Success, DownloadButton (to_csv (number_repr L) t)]"
    and "csv_file (process_data L df date_col group_cols sum_cols agg_func (format_date parse)) =
          Some (to_csv (number_repr L) t)"
    unfolding process_data_dated [OF dc] *(7) by simp_all
  then show ?thesis
    using * dc unfolding rows_coerce_dated [OF dc] by simp
qed

lemma process_data_group_rows:
  "result (process_data L (df\<lparr>rows := filter (\<lambda>r. list_all (\<lambda>g. r g \<noteq> Null) gs) (rows df)\<rparr>)
             date_col (Some gs) sum_cols agg_func (format_date parse)) =
   result (process_data L df date_col (Some gs) sum_cols agg_func (format_date parse)) \<and>
   csv_file (process_data L (df\<lparr>rows := filter (\<lambda>r. list_all (\<lambda>g. r g \<noteq> Null) gs) (rows df)\<rparr>)
             date_col (Some gs) sum_cols agg_func (format_date parse)) =
   csv_file (process_data L df date_col (Some gs) sum_cols agg_func (format_date parse))"
proof (cases "date_col \<in> set (columns df)")
  case False
  then show ?thesis by (simp add: process_data_KeyError)
next
  case True
  let ?Q = "\<lambda>r. list_all (\<lambda>g. r g \<noteq> Null) gs"
  let ?P = "\<lambda>r. snd (format_date parse (r date_col)) \<noteq> None"
  let ?df' = "df\<lparr>rows := filter ?Q (rows df)\<rparr>"
  have c: "date_col \<in> set (columns ?df')" using True by simp
  have cols: "columns (dated_table (format_date parse) date_col ?df') =
              columns (dated_table (format_date parse) date_col df)"
    by (rule columns_dated_table) simp
  have grp: "groupby_agg f (Formatted_Month # gs') cs
               (rows (coerce_columns (str_to_number L) cs (dated_table (format_date parse) date_col ?df'))) =
             groupby_agg f (Formatted_Month # gs') cs
               (rows (coerce_columns (str_to_number L) cs (dated_table (format_date parse) date_col df)))"
    if "Some gs = Some gs'" "distinct (Formatted_Month # gs' @ cs)" for f gs' cs
  proof -
    from that have g: "gs' = gs" and d: "distinct (Formatted_Month # gs @ cs)" by simp_all
    have "filter (\<lambda>r. ?P r \<and> ?Q r) (filter ?Q (rows df)) = filter (\<lambda>r. ?P r \<and> ?Q r) (rows df)"
      by (auto intro: filter_cong)
    moreover have "rows ?df' = filter ?Q (rows df)"
      by simp
    ultimately show ?thesis
      unfolding g rows_coerce_dated [OF c] rows_coerce_dated [OF True]
      by (intro groupby_agg_kept) (simp only: kept_prepared [OF d])
  qed
  show ?thesis
    unfolding process_data_dated [OF c] process_data_dated [OF True]
    by (rule aggregate_selected_cong [OF cols]) (rule grp)
qed

lemma regions_values:
  "table_values (process_data sales_library regions_table ''Month'' (Some [''Region'']) (Some [''Sales''])
     ''sum'' (format_date parse_nothing)) = Some [[Str ''01-05-2024'', Str ''A'', Num 20]]"
  by code_simp

lemma regions_keys:
  "keys_after_dates (format_date parse_nothing) ''Month'' [''Region''] regions_table =
     [[Str ''01-05-2024'', Null], [Str ''01-05-2024'', Str ''A'']]"
  by code_simp

lemma regions_messages:
  "messages (process_data sales_library regions_table ''Month'' (Some [''Region'']) (Some [''Sales''])
     ''sum'' (format_date parse_nothing)) =
   [WriteColumns sales_columns, Success,
    DownloadButton ''Formatted Month,Region,Sales\<newline>01-05-2024,A,20\<newline>'']"
  by code_simp

lemma texts_values:
  "table_values (process_data sales_library texts_table ''Month'' (Some [''Region'']) (Some [''Sales''])
     ''sum'' (format_date parse_nothing)) = Some [[Str ''01-05-2024'', Str ''A'', Num 30]]"
  by code_simp

lemma table_values_result:
  "table_values out = Some vs \<Longrightarrow> result out = Inr (Some (returned_table out)) \<and> values_of (returned_table out) = vs"
  by (auto simp: table_values_def returned_table_def split: sum.splits option.splits)

lemma sales_values:
  "table_values (process_data sales_library sales_table ''Month'' (Some [''Region'']) (Some [''Sales''])
     ''sum'' (format_date parse_nothing)) = Some [[Str ''01-05-2024'', Str ''A'', Num 30]]"
  by code_simp

lemma set_map_filter: "set (List.map_filter f xs) = {y. \<exists>x \<in> set xs. f x = Some y}"
  by (induction xs) (auto split: option.splits)

lemma row_key_Some:
  "(row_key func date_col gs r = Some k) = (\<exists>s. snd (func (r date_col)) = Some s \<and> k = Str s # map r gs)"
  by (auto simp: row_key_def split: option.splits)

lemma set_kept_keys:
  assumes "distinct (Formatted_Month # gs @ cs)"
  shows "set (map (group_key (Formatted_Month # gs))
           (filter (\<lambda>r. Null \<notin> set (group_key (Formatted_Month # gs) r))
              (map (\<lambda>r. coerce_row conv cs (with_month func date_col r))
                 (filter (\<lambda>r. snd (func (r date_col)) \<noteq> None) rs)))) =
         set (filter (\<lambda>k. Null \<notin> set k) (keys_after_dates func date_col gs (df\<lparr>rows := rs\<rparr>)))"
proof -
  have k: "\<And>r s. snd (func (r date_col)) = Some s \<Longrightarrow>
      group_key (Formatted_Month # gs) (coerce_row conv cs (with_month func date_col r)) = Str s # map r gs"
    using group_key_prepared_Some [OF assms] by blast
  have q: "\<And>r. list_all (\<lambda>g. r g \<noteq> Null) gs = (Null \<notin> set (map r gs))"
    by (auto simp: list_all_iff) (metis imageI)
  let ?h = "\<lambda>r. coerce_row conv cs (with_month func date_col r)"
  let ?PQ = "\<lambda>r. snd (func (r date_col)) \<noteq> None \<and> list_all (\<lambda>g. r g \<noteq> Null) gs"
  have "set (map (group_key (Formatted_Month # gs)) (map ?h (filter ?PQ rs))) =
        set (filter (\<lambda>k. Null \<notin> set k) (List.map_filter (row_key func date_col gs) rs))"
  proof (intro set_eqI iffI)
    fix key assume "key \<in> set (map (group_key (Formatted_Month # gs)) (map ?h (filter ?PQ rs)))"
    then obtain r where r: "r \<in> set rs" "snd (func (r date_col)) \<noteq> None"
        "list_all (\<lambda>g. r g \<noteq> Null) gs" "key = group_key (Formatted_Month # gs) (?h r)"
      by auto
    from r(2) obtain s where s: "snd (func (r date_col)) = Some s" by auto
    have key: "key = Str s # map r gs" using r(4) k [of r s] s by simp
    have "row_key func date_col gs r = Some key"
      using s key by (simp add: row_key_Some)
    moreover have "Null \<notin> set key"
      using r(3) key by (simp add: q)
    ultimately show "key \<in> set (filter (\<lambda>k. Null \<notin> set k) (List.map_filter (row_key func date_col gs) rs))"
      using r(1) by (auto simp: set_map_filter)
  next
    fix key assume "key \<in> set (filter (\<lambda>k. Null \<notin> set k) (List.map_filter (row_key func date_col gs) rs))"
    then obtain r where r: "r \<in> set rs" "row_key func date_col gs r = Some key" "Null \<notin> set key"
      by (auto simp: set_map_filter)
    from r(2) obtain s where s: "snd (func (r date_col)) = Some s" "key = Str s # map r gs"
      by (auto simp: row_key_Some)
    have "list_all (\<lambda>g. r g \<noteq> Null) gs"
      using r(3) s(2) by (simp add: q)
    moreover have "key = group_key (Formatted_Month # gs) (?h r)"
      using k [of r s] s by simp
    ultimately have "?PQ r \<and> key = group_key (Formatted_Month # gs) (?h r)"
      using s(1) by simp
    then show "key \<in> set (map (group_key (Formatted_Month # gs)) (map ?h (filter ?PQ rs)))"
      using r(1) by (auto simp: image_iff)
  qed
  then show ?thesis
    unfolding kept_prepared [OF assms] keys_after_dates_def by simp
qed

lemma numbers_to_numeric:
  "numbers (map (to_numeric conv) vals) =
   numbers (map (to_numeric conv) (filter (\<lambda>v. to_numeric conv v \<noteq> Null) vals))"
  by (induction vals) (auto simp: numbers_def split: cell.splits)

lemma rows_of_group:
  assumes "distinct (Formatted_Month # gs @ cs)" and "Null \<notin> set key"
  shows "filter (\<lambda>r. group_key (Formatted_Month # gs) r = key)
           (map (\<lambda>r. coerce_row conv cs (with_month func date_col r))
              (filter (\<lambda>r. snd (func (r date_col)) \<noteq> None) rs)) =
         map (\<lambda>r. coerce_row conv cs (with_month func date_col r))
           (filter (\<lambda>r. row_key func date_col gs r = Some key) rs)"
proof -
  have "\<And>r. (snd (func (r date_col)) \<noteq> None \<and>
              group_key (Formatted_Month # gs) (coerce_row conv cs (with_month func date_col r)) = key) =
             (row_key func date_col gs r = Some key)"
    using assms(2) unfolding group_key_prepared [OF assms(1)] row_key_Some
    by (auto simp: cell_of_option_def)
  then have "filter (\<lambda>r. snd (func (r date_col)) \<noteq> None \<and>
              group_key (Formatted_Month # gs) (coerce_row conv cs (with_month func date_col r)) = key) rs =
        filter (\<lambda>r. row_key func date_col gs r = Some key) rs"
    by simp
  then show ?thesis
    by (simp only: filter_map comp_def filter_filter)
qed

section \<open>Properties of the CSV writer and reader\<close>

lemma add_chars_simps:
  "add_chars [] recs = recs"
  "add_chars (c # f) recs = add_char c (add_chars f recs)"
  by (simp_all add: add_chars_def)

lemma add_chars_field: "add_chars f ((g # fs) # recs) = ((f @ g) # fs) # recs"
  by (induction f) (simp_all add: add_chars_simps)

lemma csv_split_unquoted:
  assumes "\<not> needs_quote f"
  shows "csv_split False (f @ rest) = add_chars f (csv_split False rest)"
  using assms
proof (induction f)
  case Nil
  then show ?case by (simp add: add_chars_simps)
next
  case (Cons c f)
  then have c: "c \<noteq> CHR '',''" "c \<noteq> CHR 0x22" "c \<noteq> CHR 0x0A" and f: "\<not> needs_quote f"
    by (auto simp: needs_quote_def)
  show ?case
    using c Cons.IH [OF f] by (simp add: add_chars_simps)
qed



lemma csv_split_quoted:
  assumes "rest = [] \<or> hd rest \<noteq> CHR 0x22"
  shows "csv_split True (escape f @ CHR 0x22 # rest) = add_chars f (csv_split False rest)"
proof (induction f)
  case Nil
  show ?case
    using assms by (cases rest) (simp_all add: escape_def add_chars_simps)
next
  case (Cons c f)
  show ?case
  proof (cases "c = CHR 0x22")
    case True
    have "escape (c # f) @ CHR 0x22 # rest = CHR 0x22 # CHR 0x22 # (escape f @ CHR 0x22 # rest)"
      using True by (simp add: escape_def)
    then show ?thesis
      using True Cons.IH by (simp add: add_chars_simps)
  next
    case False
    have "escape (c # f) @ CHR 0x22 # rest = c # (escape f @ CHR 0x22 # rest)"
      using False by (simp add: escape_def)
    then show ?thesis
      using False Cons.IH by (simp add: add_chars_simps)
  qed
qed

lemma csv_split_field:
  assumes "rest = [] \<or> hd rest \<noteq> CHR 0x22"
  shows "csv_split False (quote_field f @ rest) = add_chars f (csv_split False rest)"
proof (cases "needs_quote f")
  case False
  then show ?thesis by (simp add: quote_field_def csv_split_unquoted)
next
  case True
  have "quote_field f @ rest = CHR 0x22 # (escape f @ CHR 0x22 # rest)"
    using True by (simp add: quote_field_def escape_def)
  then show ?thesis
    using csv_split_quoted [OF assms, of f] by simp
qed

lemma csv_split_nonempty: "\<exists>f fs recs. csv_split q s = (f # fs) # recs"
proof (induction q s rule: csv_split.induct)
  case (1 quoted)
  then show ?case by simp
next
  case (2 c s)
  then show ?case by (auto simp: new_record_def)
next
  case (3 c s)
  then show ?case by (cases s) auto
qed

lemma csv_split_fields:
  assumes "fs \<noteq> []"
  shows "csv_split False (join_fields (map quote_field fs) @ CHR 0x0A # rest) = fs # csv_split False rest"
  using assms
proof (induction fs rule: join_fields.induct)
  case 1
  then show ?case by simp
next
  case (2 f)
  obtain g gs recs where r: "csv_split False rest = (g # gs) # recs"
    using csv_split_nonempty by blast
  have "csv_split False (quote_field f @ CHR 0x0A # rest) = add_chars f (csv_split False (CHR 0x0A # rest))"
    by (rule csv_split_field) simp
  then show ?case
    by (simp add: new_record_def add_chars_field)
next
  case (3 f g fs)
  have "csv_split False (quote_field f @ CHR '','' # (join_fields (map quote_field (g # fs)) @ CHR 0x0A # rest)) =
        add_chars f (csv_split False (CHR '','' # (join_fields (map quote_field (g # fs)) @ CHR 0x0A # rest)))"
    by (rule csv_split_field) simp
  then show ?case
    using 3 by (simp add: add_chars_field)
qed

lemma csv_split_line:
  assumes "fs \<noteq> []"
  shows "csv_split False (csv_line fs @ rest) = fs # csv_split False rest"
proof (cases "fs = [[]]")
  case True
  then show ?thesis
    by (cases rest) (simp_all add: csv_line_def new_record_def)
next
  case False
  then show ?thesis
    using csv_split_fields [OF assms, of rest] by (simp add: csv_line_def)
qed

lemma csv_split_lines:
  assumes "\<And>fs. fs \<in> set recs \<Longrightarrow> fs \<noteq> []"
  shows "csv_split False (concat (map csv_line recs)) = recs @ [[[]]]"
  using assms
proof (induction recs)
  case Nil
  then show ?case by simp
next
  case (Cons fs recs)
  then show ?case
    using csv_split_line [of fs "concat (map csv_line recs)"] by simp
qed

lemma parse_csv_lines:
  assumes "\<And>fs. fs \<in> set recs \<Longrightarrow> fs \<noteq> []"
  shows "parse_csv (concat (map csv_line recs)) = recs"
  by (simp add: parse_csv_def csv_split_lines [OF assms])

lemma to_csv_lines:
  "to_csv repr df =
   concat (map csv_line (columns df # map (map (cell_text repr)) (values_of df)))"
  by (simp add: to_csv_def values_of_def comp_def)

lemma parse_csv_to_csv:
  assumes "columns df \<noteq> []"
  shows "parse_csv (to_csv repr df) = columns df # map (map (cell_text repr)) (values_of df)"
  unfolding to_csv_lines
  by (rule parse_csv_lines) (use assms in \<open>auto simp: values_of_def\<close>)

lemma text_code_values:
  "table_values (process_data sales_library text_code_table ''Month'' (Some [''Region'']) (Some [''Sales''])
     ''sum'' (format_date parse_nothing)) = Some [[Str ''01-05-2024'', Str ''7'', Num 10]]"
  by code_simp

lemma text_code_csv:
  "csv_file (process_data sales_library text_code_table ''Month'' (Some [''Region'']) (Some [''Sales''])
     ''sum'' (format_date parse_nothing)) = Some ''Formatted Month,Region,Sales\<newline>01-05-2024,7,10\<newline>''"
  by code_simp

lemma number_code_values:
  "table_values (process_data sales_library number_code_table ''Month'' (Some [''Region'']) (Some [''Sales''])
     ''sum'' (format_date parse_nothing)) = Some [[Str ''01-05-2024'', Num 7, Num 10]]"
  by code_simp

lemma number_code_csv:
  "csv_file (process_data sales_library number_code_table ''Month'' (Some [''Region'']) (Some [''Sales''])
     ''sum'' (format_date parse_nothing)) = Some ''Formatted Month,Region,Sales\<newline>01-05-2024,7,10\<newline>''"
  by code_simp

lemma sales_csv:
  "csv_file (process_data sales_library sales_table ''Month'' (Some [''Region'']) (Some [''Sales''])
     ''sum'' (format_date parse_nothing)) = Some ''Formatted Month,Region,Sales\<newline>01-05-2024,A,30\<newline>''"
  by code_simp

lemma parse_sales_csv:
  "parse_csv ''Formatted Month,Region,Sales\<newline>01-05-2024,A,30\<newline>'' =
     [[''Formatted Month'', ''Region'', ''Sales''], [''01-05-2024'', ''A'', ''30'']]"
  by code_simp

lemma re_match_soon: "re_match ''soon'' = None"
  by code_simp

lemma re_match_month_13: "re_match ''2024 13 (Foo '24)'' = Some (''2024'', ''13'')"
  by code_simp

lemma to_datetime_month_13: "to_datetime (date_text ''2024'' ''13'') = Inl ValueError"
  by code_simp

section \<open>The claims\<close>

subsection \<open>C1: the special pattern\<close>

text \<open>
  Against claim C1 as stated. The text \<^verbatim>\<open>2024 13 (Foo '24)\<close> matches the pattern, but
  \<^verbatim>\<open>pd.to_datetime\<close> rejects month 13; the exception is caught, an error is reported
  and the result is \<^verbatim>\<open>None\<close>, not \<^verbatim>\<open>01-13-2024\<close>.
\<close>

theorem format_date_month_13:
  "is_special ''2024'' ''13'' ''Foo'' ''24'' \<and>
   special_pattern ''2024'' ''13'' ''Foo'' ''24'' [] = ''2024 13 (Foo '24)'' \<and>
   format_date parse_nothing (Str ''2024 13 (Foo '24)'') =
     ([Error (ErrorParsingDate (Str ''2024 13 (Foo '24)'') ValueError)], None)"
  by code_simp

text \<open>
  Claim C1, amended. For every input string matching the special pattern (four digits, a
  space, two digits, a space, a bracketed month name and two-digit year, whatever
  follows) whose two digits are a month from 01 to 12 and whose first of the month lies
  in the range of pandas timestamps, \<^verbatim>\<open>format_date\<close> reports nothing and returns
  \<^verbatim>\<open>01-MM-YYYY\<close>: the day fixed at 1, the two digits as month, the four digits as year.
\<close>

theorem format_date_special:
  assumes "is_special y m w yy"
    and "1 \<le> nat_of_digits m" and "nat_of_digits m \<le> 12"
    and "in_timestamp_bounds (nat_of_digits y, nat_of_digits m, 1)"
  shows "format_date parse (Str (special_pattern y m w yy rest)) = ([], Some (''01-'' @ m @ ''-'' @ y))"
proof -
  from assms(1) have y: "length y = 4" "list_all is_digit y"
    and m: "length m = 2" "list_all is_digit m"
    by (simp_all add: is_special_def)
  have "1 \<le> nat_of_digits y"
    using assms(4) by (auto simp: in_timestamp_bounds_def date_le_def)
  then have valid: "valid_date (nat_of_digits y, nat_of_digits m, 1)"
    using assms(2,3) by (simp add: valid_date_def days_in_month_def)
  have dt: "to_datetime (date_text y m) = Inr (nat_of_digits y, nat_of_digits m, 1)"
    unfolding to_datetime_first_of_month [OF y m] using valid assms(4) by simp
  have "pad2 1 = ''01''"
    by (simp add: pad2_def digit_char_def)
  then have "strftime (nat_of_digits y, nat_of_digits m, 1) = ''01-'' @ m @ ''-'' @ y"
    by (simp add: strftime_def pad2_digits [OF m] pad4_digits [OF y])
  then show ?thesis
    by (simp add: format_date_def format_date_try_def re_match_special [OF assms(1)] dt)
qed

text \<open>The specification's example, \<^verbatim>\<open>2024 05 (May '24)\<close>, gives \<^verbatim>\<open>01-05-2024\<close>.\<close>

theorem format_date_special_witness:
  "is_special ''2024'' ''05'' ''May'' ''24'' \<and>
   special_pattern ''2024'' ''05'' ''May'' ''24'' [] = ''2024 05 (May '24)'' \<and>
   nat_of_digits ''05'' = 5 \<and>
   in_timestamp_bounds (nat_of_digits ''2024'', nat_of_digits ''05'', 1) \<and>
   format_date parse_nothing (Str ''2024 05 (May '24)'') = ([], Some ''01-05-2024'')"
proof -
  have sp: "is_special ''2024'' ''05'' ''May'' ''24''"
    by (simp add: is_special_def is_digit_def is_word_def)
  have pat: "special_pattern ''2024'' ''05'' ''May'' ''24'' [] = ''2024 05 (May '24)''"
    by (simp add: special_pattern_def)
  have m: "nat_of_digits ''05'' = 5"
    by (simp add: nat_of_digits_def digit_val_def)
  have y: "nat_of_digits ''2024'' = 2024"
    by (simp add: nat_of_digits_def digit_val_def)
  have b: "in_timestamp_bounds (nat_of_digits ''2024'', nat_of_digits ''05'', 1)"
    by (simp add: m y in_timestamp_bounds_def date_le_def)
  show ?thesis
    using format_date_special [OF sp _ _ b, of parse_nothing "[]"] sp pat m b
    by simp
qed


subsection \<open>C2: requested numeric columns that are missing\<close>

text \<open>
  Against claim C2 as stated. The table has no column \<^verbatim>\<open>Profit\<close>, which is requested,
  and no column \<^verbatim>\<open>Date\<close>, which is named as the date column: \<^verbatim>\<open>data[date_col]\<close> at
  line 46 raises \<^verbatim>\<open>KeyError\<close> before the check of line 53 is reached, and no
  missing-columns message is sent.
\<close>

theorem process_file_missing_date_column:
  "reads sales_library sales_file None sales_table \<and>
   ''Profit'' \<notin> set (columns sales_table) \<and>
   process_file sales_library sales_file None ''Date'' (Some [''Region'']) (Some [''Profit''])
       ''sum'' (format_date parse_nothing) =
     raised (KeyError ''Date'') [WriteColumns sales_columns]"
proof -
  have c: "''Date'' \<notin> set (columns sales_table)" "''Profit'' \<notin> set (columns sales_table)"
    by (simp_all add: sales_table_def sales_columns_def)
  have cols: "columns sales_table = sales_columns"
    by (simp add: sales_table_def)
  show ?thesis
    using reads_sales [of None] c(2)
    by (simp add: process_file_reads [OF reads_sales] process_data_KeyError [OF c(1)] cols)
qed

text \<open>
  Claim C2, amended. For every table that \<^verbatim>\<open>process_file\<close> reads and that has the date
  column, and every list of requested numeric columns: if some requested column is
  neither a column of the table nor the added \<^verbatim>\<open>Formatted Month\<close>, the call reports
  the missing columns by name (exactly those, in the order requested) after the column
  listing and the date messages, returns \<^verbatim>\<open>None\<close>, writes no CSV and offers no
  download.
\<close>

theorem process_file_missing_columns:
  assumes "reads L file sheet_name df"
    and "date_col \<in> set (columns df)"
    and "filter (\<lambda>col. col \<notin> set (columns df) \<and> col \<noteq> Formatted_Month) cs \<noteq> []"
  shows "process_file L file sheet_name date_col group_cols (Some cs) agg_func (format_date parse) =
           returned_none (WriteColumns (columns df) # date_messages (format_date parse) date_col df @
             [Error (MissingColumns (filter (\<lambda>col. col \<notin> set (columns df) \<and> col \<noteq> Formatted_Month) cs))]) \<and>
         no_output (process_file L file sheet_name date_col group_cols (Some cs) agg_func (format_date parse))"
proof -
  let ?d = "dated_table (format_date parse) date_col df"
  have m: "filter (\<lambda>col. col \<notin> set (columns ?d)) cs =
           filter (\<lambda>col. col \<notin> set (columns df) \<and> col \<noteq> Formatted_Month) cs"
    by (rule filter_cong) (auto simp: columns_dated_table_set)
  have eq: "process_file L file sheet_name date_col group_cols (Some cs) agg_func (format_date parse) =
           returned_none (WriteColumns (columns df) # date_messages (format_date parse) date_col df @
             [Error (MissingColumns (filter (\<lambda>col. col \<notin> set (columns df) \<and> col \<noteq> Formatted_Month) cs))])"
    using assms(3) aggregate_selected_missing [of ?d cs] 
    by (simp add: process_file_reads [OF assms(1)] process_data_dated [OF assms(2)] m)
  moreover have "no_output (returned_none (WriteColumns (columns df) # date_messages (format_date parse) date_col df @
             [Error (MissingColumns (filter (\<lambda>col. col \<notin> set (columns df) \<and> col \<noteq> Formatted_Month) cs))]))"
    using date_messages_no_download [of parse date_col df]
    by (simp add: no_output_def returned_none_def is_download_def)
  ultimately show ?thesis by simp
qed

text \<open>
  The example table has no column \<^verbatim>\<open>Profit\<close>: requesting \<^verbatim>\<open>Sales\<close> and \<^verbatim>\<open>Profit\<close>
  reports \<^verbatim>\<open>Profit\<close> as missing.
\<close>

theorem process_file_missing_columns_witness:
  "reads sales_library sales_file None sales_table \<and>
   ''Month'' \<in> set (columns sales_table) \<and>
   process_file sales_library sales_file None ''Month'' (Some [''Region'']) (Some [''Sales'', ''Profit''])
       ''sum'' (format_date parse_nothing) =
     returned_none [WriteColumns sales_columns, Error (MissingColumns [''Profit''])] \<and>
   no_output (process_file sales_library sales_file None ''Month'' (Some [''Region'']) (Some [''Sales'', ''Profit''])
       ''sum'' (format_date parse_nothing))"
proof -
  have c: "''Month'' \<in> set (columns sales_table)"
    by (simp add: sales_table_def sales_columns_def)
  have f: "filter (\<lambda>col. col \<notin> set (columns sales_table) \<and> col \<noteq> Formatted_Month) [''Sales'', ''Profit''] = [''Profit'']"
    by (simp add: sales_table_def sales_columns_def Formatted_Month_def)
  have cols: "columns sales_table = sales_columns"
    by (simp add: sales_table_def)
  have ne: "filter (\<lambda>col. col \<notin> set (columns sales_table) \<and> col \<noteq> Formatted_Month) [''Sales'', ''Profit''] \<noteq> []"
    unfolding f by simp
  note run = process_file_missing_columns [of sales_library sales_file None sales_table
      "''Month''" "[''Sales'', ''Profit'']" "Some [''Region'']" "''sum''" parse_nothing,
      OF reads_sales c ne,
      unfolded f sales_dates]
  show ?thesis
    using run [unfolded cols append_Nil] reads_sales [of None] c by blast
qed


subsection \<open>C3: an aggregation function that is not supported\<close>

text \<open>
  Against claim C3 as stated. With \<^verbatim>\<open>max\<close> as the function and a requested column
  \<^verbatim>\<open>Profit\<close> that the table lacks, the check of lines 53 to 56 comes first: the call
  reports the missing column, not the aggregation function.
\<close>

theorem process_file_max_missing_column:
  "''max'' \<notin> {''sum'', ''mean'', ''median''} \<and>
   reads sales_library sales_file None sales_table \<and>
   process_file sales_library sales_file None ''Month'' (Some [''Region'']) (Some [''Profit''])
       ''max'' (format_date parse_nothing) =
     returned_none [WriteColumns sales_columns, Error (MissingColumns [''Profit''])]"
proof -
  have c: "''Month'' \<in> set (columns sales_table)"
    by (simp add: sales_table_def sales_columns_def)
  have cols: "columns sales_table = sales_columns"
    by (simp add: sales_table_def)
  have m: "filter (\<lambda>col. col \<notin> set (columns (dated_table (format_date parse_nothing) ''Month'' sales_table)))
             [''Profit''] = [''Profit'']"
    by (simp add: columns_dated_table_set cols sales_columns_def Formatted_Month_def)
  have "aggregate_selected sales_library (dated_table (format_date parse_nothing) ''Month'' sales_table)
          [WriteColumns sales_columns] (Some [''Region'']) (Some [''Profit'']) ''max'' =
        returned_none ([WriteColumns sales_columns] @ [Error (MissingColumns [''Profit''])])"
    using aggregate_selected_missing [of "dated_table (format_date parse_nothing) ''Month'' sales_table" "[''Profit'']"]
    unfolding m by simp
  then show ?thesis
    using reads_sales [of None]
    by (simp add: process_file_reads [OF reads_sales] process_data_dated [OF c] sales_dates cols)
qed

text \<open>
  Claim C3, amended. For every table that \<^verbatim>\<open>process_file\<close> reads and that has the date
  column, and every non-empty list of requested numeric columns without repetition that
  are all columns of the table (or the added \<^verbatim>\<open>Formatted Month\<close>): if the aggregation
  function name is none of \<^verbatim>\<open>sum\<close>, \<^verbatim>\<open>mean\<close>, \<^verbatim>\<open>median\<close>, the call reports
  "Unsupported aggregation function" after the column listing and the date messages,
  returns \<^verbatim>\<open>None\<close>, writes no CSV and offers no download.
\<close>

theorem process_file_unsupported_aggregation:
  assumes "reads L file sheet_name df"
    and "date_col \<in> set (columns df)"
    and "cs \<noteq> []" and "distinct cs"
    and "set cs \<subseteq> insert Formatted_Month (set (columns df))"
    and "agg_func \<notin> {''sum'', ''mean'', ''median''}"
  shows "process_file L file sheet_name date_col group_cols (Some cs) agg_func (format_date parse) =
           returned_none (WriteColumns (columns df) # date_messages (format_date parse) date_col df @
             [Error UnsupportedAggregation]) \<and>
         no_output (process_file L file sheet_name date_col group_cols (Some cs) agg_func (format_date parse))"
proof -
  let ?d = "dated_table (format_date parse) date_col df"
  have sub: "set cs \<subseteq> set (columns ?d)"
    using assms(5) by (simp add: columns_dated_table_set)
  have eq: "process_file L file sheet_name date_col group_cols (Some cs) agg_func (format_date parse) =
           returned_none (WriteColumns (columns df) # date_messages (format_date parse) date_col df @
             [Error UnsupportedAggregation])"
    using aggregate_selected_unsupported [OF assms(3) sub assms(4) aggregation_None [OF assms(6)]]
    by (simp add: process_file_reads [OF assms(1)] process_data_dated [OF assms(2)])
  have "\<not> list_ex is_download (WriteColumns (columns df) # date_messages (format_date parse) date_col df @
             [Error UnsupportedAggregation])"
    using date_messages_no_download [of parse date_col df] by (simp add: is_download_def)
  then show ?thesis
    unfolding eq by (simp add: no_output_returned_none)
qed

text \<open>
  The example table, summing \<^verbatim>\<open>Sales\<close> by \<^verbatim>\<open>Region\<close> with the function \<^verbatim>\<open>max\<close>, as
  in the specification's example of an unsupported name.
\<close>

theorem process_file_unsupported_aggregation_witness:
  "reads sales_library sales_file None sales_table \<and>
   ''Month'' \<in> set (columns sales_table) \<and>
   set [''Sales''] \<subseteq> insert Formatted_Month (set (columns sales_table)) \<and>
   ''max'' \<notin> {''sum'', ''mean'', ''median''} \<and>
   process_file sales_library sales_file None ''Month'' (Some [''Region'']) (Some [''Sales''])
       ''max'' (format_date parse_nothing) =
     returned_none [WriteColumns sales_columns, Error UnsupportedAggregation] \<and>
   no_output (process_file sales_library sales_file None ''Month'' (Some [''Region'']) (Some [''Sales''])
       ''max'' (format_date parse_nothing))"
proof -
  have c: "''Month'' \<in> set (columns sales_table)"
    by (simp add: sales_table_def sales_columns_def)
  have s: "set [''Sales''] \<subseteq> insert Formatted_Month (set (columns sales_table))"
    by (simp add: sales_table_def sales_columns_def)
  have a: "''max'' \<notin> {''sum'', ''mean'', ''median''}"
    by simp
  have ne: "[''Sales''] \<noteq> []" "distinct [''Sales'']"
    by simp_all
  have cols: "columns sales_table = sales_columns"
    by (simp add: sales_table_def)
  note run = process_file_unsupported_aggregation [of sales_library sales_file None sales_table
      "''Month''" "[''Sales'']" "''max''" "Some [''Region'']" parse_nothing,
      OF reads_sales c ne s a, unfolded sales_dates cols append_Nil]
  show ?thesis
    using run reads_sales [of None] c s a by blast
qed


subsection \<open>C4: entries of a numeric column that are no numbers\<close>

text \<open>
  Claim C4. In every successful run, each cell of the aggregated table under a requested
  numeric column is the selected reduction of the numbers that \<^verbatim>\<open>pd.to_numeric\<close> makes
  of that column's entries in the rows of the cell's key; the entries that are no
  numbers become missing values and are not among them. Such entries never abort the
  run: how a call ends (with an exception, with \<^verbatim>\<open>None\<close> or with a table) does not
  depend on the cells of the table.
\<close>

theorem non_numeric_entries_excluded:
  assumes "reads L file sheet_name df"
  shows "outcome_kind (process_file L file sheet_name date_col (Some gs) (Some cs) agg_func (format_date parse)) =
         outcome_kind (process_data L (df\<lparr>rows := rs\<rparr>) date_col (Some gs) (Some cs) agg_func (format_date parse)) \<and>
         (\<forall>t f. result (process_file L file sheet_name date_col (Some gs) (Some cs) agg_func (format_date parse)) =
                  Inr (Some t) \<and> aggregation agg_func = Some f \<longrightarrow>
            (\<forall>out \<in> set (rows t). \<forall>c \<in> set cs.
               out c = f (numbers (map (to_numeric (str_to_number L))
                          (filter (\<lambda>v. to_numeric (str_to_number L) v \<noteq> Null)
                             (map (\<lambda>r. r c)
                                (filter (\<lambda>r. row_key (format_date parse) date_col gs r =
                                              Some (group_key (Formatted_Month # gs) out))
                                   (rows df))))))))"
proof (intro conjI allI impI ballI)
  show "outcome_kind (process_file L file sheet_name date_col (Some gs) (Some cs) agg_func (format_date parse)) =
         outcome_kind (process_data L (df\<lparr>rows := rs\<rparr>) date_col (Some gs) (Some cs) agg_func (format_date parse))"
    using process_data_kind [of df "df\<lparr>rows := rs\<rparr>"]
    by (simp add: process_file_reads [OF assms])
next
  fix t f out c
  assume a: "result (process_file L file sheet_name date_col (Some gs) (Some cs) agg_func (format_date parse)) =
                  Inr (Some t) \<and> aggregation agg_func = Some f"
    and out: "out \<in> set (rows t)" and c: "c \<in> set cs"
  let ?h = "\<lambda>r. coerce_row (str_to_number L) cs (with_month (format_date parse) date_col r)"
  have "result (process_data L df date_col (Some gs) (Some cs) agg_func (format_date parse)) = Inr (Some t)"
    using a by (simp add: process_file_reads [OF assms])
  from process_data_success [OF this] a obtain
    d: "distinct (Formatted_Month # gs @ cs)"
    and t: "t = groupby_agg f (Formatted_Month # gs) cs
                 (map ?h (filter (\<lambda>r. snd (format_date parse (r date_col)) \<noteq> None) (rows df)))"
    by auto
  have d': "distinct ((Formatted_Month # gs) @ cs)"
    using d by simp
  from groupby_value [OF out [unfolded t] d' c]
  have nonull: "Null \<notin> set (group_key (Formatted_Month # gs) out)"
    and val: "out c = f (numbers (map (\<lambda>r. r c)
        (filter (\<lambda>r. group_key (Formatted_Month # gs) r = group_key (Formatted_Month # gs) out)
           (map ?h (filter (\<lambda>r. snd (format_date parse (r date_col)) \<noteq> None) (rows df))))))"
    by blast+
  let ?X = "filter (\<lambda>r. row_key (format_date parse) date_col gs r =
            Some (group_key (Formatted_Month # gs) out)) (rows df)"
  have m: "map (\<lambda>r. r c) (map ?h ?X) = map (to_numeric (str_to_number L)) (map (\<lambda>r. r c) ?X)"
    by (simp add: comp_def value_prepared [OF d c])
  have "out c = f (numbers (map (\<lambda>r. r c) (map ?h ?X)))"
    unfolding val rows_of_group [OF d nonull] by (rule refl)
  also have "\<dots> = f (numbers (map (to_numeric (str_to_number L)) (map (\<lambda>r. r c) ?X)))"
    unfolding m by (rule refl)
  also have "\<dots> = f (numbers (map (to_numeric (str_to_number L))
                          (filter (\<lambda>v. to_numeric (str_to_number L) v \<noteq> Null) (map (\<lambda>r. r c) ?X))))"
    using numbers_to_numeric [of "str_to_number L" "map (\<lambda>r. r c) ?X"] by (rule arg_cong)
  finally show "out c = f (numbers (map (to_numeric (str_to_number L))
                          (filter (\<lambda>v. to_numeric (str_to_number L) v \<noteq> Null)
                             (map (\<lambda>r. r c)
                                (filter (\<lambda>r. row_key (format_date parse) date_col gs r =
                                              Some (group_key (Formatted_Month # gs) out))
                                   (rows df))))))" .
qed

text \<open>
  Three rows of May 2024 for region A with the sales 10, the text \<^verbatim>\<open>n/a\<close> and the text
  \<^verbatim>\<open>20\<close>: the text \<^verbatim>\<open>n/a\<close> is no number and is left out, the sum is 30, and the run
  ends with a table as it does on the table with no rows.
\<close>

theorem non_numeric_entries_excluded_witness:
  "reads sales_library texts_file None texts_table \<and>
   to_numeric (str_to_number sales_library) (Str ''n/a'') = Null \<and>
   to_numeric (str_to_number sales_library) (Str ''20'') = Num 20 \<and>
   aggregation ''sum'' = Some agg_sum \<and>
   result (process_file sales_library texts_file None ''Month'' (Some [''Region'']) (Some [''Sales''])
        ''sum'' (format_date parse_nothing)) =
     Inr (Some (returned_table (process_file sales_library texts_file None ''Month'' (Some [''Region''])
        (Some [''Sales'']) ''sum'' (format_date parse_nothing)))) \<and>
   values_of (returned_table (process_file sales_library texts_file None ''Month'' (Some [''Region''])
        (Some [''Sales'']) ''sum'' (format_date parse_nothing))) = [[Str ''01-05-2024'', Str ''A'', Num 30]] \<and>
   hd (rows (returned_table (process_file sales_library texts_file None ''Month'' (Some [''Region''])
        (Some [''Sales'']) ''sum'' (format_date parse_nothing)))) ''Sales'' =
     agg_sum (numbers (map (to_numeric (str_to_number sales_library))
       (filter (\<lambda>v. to_numeric (str_to_number sales_library) v \<noteq> Null)
          (map (\<lambda>r. r ''Sales'')
             (filter (\<lambda>r. row_key (format_date parse_nothing) ''Month'' [''Region''] r =
                   Some (group_key (Formatted_Month # [''Region''])
                     (hd (rows (returned_table (process_file sales_library texts_file None ''Month''
                        (Some [''Region'']) (Some [''Sales'']) ''sum'' (format_date parse_nothing)))))))
                (rows texts_table)))))) \<and>
   outcome_kind (process_file sales_library texts_file None ''Month'' (Some [''Region'']) (Some [''Sales''])
        ''sum'' (format_date parse_nothing)) =
   outcome_kind (process_data sales_library (texts_table\<lparr>rows := []\<rparr>) ''Month'' (Some [''Region''])
        (Some [''Sales'']) ''sum'' (format_date parse_nothing))"
proof -
  let ?out = "process_file sales_library texts_file None ''Month'' (Some [''Region'']) (Some [''Sales''])
        ''sum'' (format_date parse_nothing)"
  have v: "table_values ?out = Some [[Str ''01-05-2024'', Str ''A'', Num 30]]"
    using texts_values by (simp add: process_file_reads [OF reads_texts])
  note r = table_values_result [OF v]
  have n: "to_numeric (str_to_number sales_library) (Str ''n/a'') = Null"
      "to_numeric (str_to_number sales_library) (Str ''20'') = Num 20"
    by (simp_all add: to_numeric_def sales_library_def simple_library_def simple_number_def is_digit_def
        nat_of_digits_def digit_val_def)
  have a: "aggregation ''sum'' = Some agg_sum"
    by (simp add: aggregation_def)
  have "rows (returned_table ?out) \<noteq> []"
    using conjunct2 [OF r] by (auto simp: values_of_def)
  then have h: "hd (rows (returned_table ?out)) \<in> set (rows (returned_table ?out))"
    by simp
  note th = non_numeric_entries_excluded [of sales_library texts_file None texts_table "''Month''"
      "[''Region'']" "[''Sales'']" "''sum''" parse_nothing "[]", OF reads_texts]
  from conjunct2 [OF th] r a h
  have "hd (rows (returned_table ?out)) ''Sales'' =
     agg_sum (numbers (map (to_numeric (str_to_number sales_library))
       (filter (\<lambda>v. to_numeric (str_to_number sales_library) v \<noteq> Null)
          (map (\<lambda>r. r ''Sales'')
             (filter (\<lambda>r. row_key (format_date parse_nothing) ''Month'' [''Region''] r =
                   Some (group_key (Formatted_Month # [''Region'']) (hd (rows (returned_table ?out)))))
                (rows texts_table))))))"
    by simp
  with conjunct1 [OF th] r n a reads_texts [of None] show ?thesis
    by blast
qed

subsection \<open>C5: rows without a date\<close>

text \<open>
  Claim C5. On a missing date value \<^verbatim>\<open>format_date\<close> returns \<^verbatim>\<open>None\<close> (and reports
  nothing). Every row for which \<^verbatim>\<open>format_date\<close> returns \<^verbatim>\<open>None\<close>, because its date is
  missing or cannot be parsed, is excluded from the aggregated output, and processing
  continues with the others: the value the call returns and the CSV it writes are those
  of processing the table without these rows.
\<close>

theorem rows_without_date_excluded:
  "format_date parse Null = ([], None) \<and>
   (reads L file sheet_name df \<longrightarrow>
      result (process_file L file sheet_name date_col group_cols sum_cols agg_func (format_date parse)) =
      result (process_data L
                (df\<lparr>rows := filter (\<lambda>r. snd (format_date parse (r date_col)) \<noteq> None) (rows df)\<rparr>)
                date_col group_cols sum_cols agg_func (format_date parse)) \<and>
      csv_file (process_file L file sheet_name date_col group_cols sum_cols agg_func (format_date parse)) =
      csv_file (process_data L
                (df\<lparr>rows := filter (\<lambda>r. snd (format_date parse (r date_col)) \<noteq> None) (rows df)\<rparr>)
                date_col group_cols sum_cols agg_func (format_date parse)))"
proof (intro conjI impI)
  show "format_date parse Null = ([], None)"
    by (rule format_date_Null)
next
  assume r: "reads L file sheet_name df"
  show "result (process_file L file sheet_name date_col group_cols sum_cols agg_func (format_date parse)) =
      result (process_data L
                (df\<lparr>rows := filter (\<lambda>r. snd (format_date parse (r date_col)) \<noteq> None) (rows df)\<rparr>)
                date_col group_cols sum_cols agg_func (format_date parse))"
    unfolding process_file_reads [OF r]
    by (rule process_data_filter_rows(1) [symmetric]) simp
next
  assume r: "reads L file sheet_name df"
  show "csv_file (process_file L file sheet_name date_col group_cols sum_cols agg_func (format_date parse)) =
      csv_file (process_data L
                (df\<lparr>rows := filter (\<lambda>r. snd (format_date parse (r date_col)) \<noteq> None) (rows df)\<rparr>)
                date_col group_cols sum_cols agg_func (format_date parse))"
    unfolding process_file_reads [OF r]
    by (rule process_data_filter_rows(2) [symmetric]) simp
qed

text \<open>
  A table of three rows for region A: sales 10 in May 2024, sales 5 with no date, sales
  7 with the date \<^verbatim>\<open>soon\<close>. Only the first row is in the output, and the run succeeds.
\<close>

theorem rows_without_date_excluded_witness:
  "reads sales_library dates_file None dates_table \<and>
   format_date parse_nothing Null = ([], None) \<and>
   format_date parse_nothing (Str ''soon'') = ([Error (ErrorParsingDate (Str ''soon'') ParserError)], None) \<and>
   result (process_file sales_library dates_file None ''Month'' (Some [''Region'']) (Some [''Sales''])
        ''sum'' (format_date parse_nothing)) =
   result (process_data sales_library
        (dates_table\<lparr>rows := filter (\<lambda>r. snd (format_date parse_nothing (r ''Month'')) \<noteq> None) (rows dates_table)\<rparr>)
        ''Month'' (Some [''Region'']) (Some [''Sales'']) ''sum'' (format_date parse_nothing)) \<and>
   table_values (process_data sales_library dates_table ''Month'' (Some [''Region'']) (Some [''Sales''])
        ''sum'' (format_date parse_nothing)) = Some [[Str ''01-05-2024'', Str ''A'', Num 10]]"
  using rows_without_date_excluded [of parse_nothing sales_library dates_file None dates_table
      "''Month''" "Some [''Region'']" "Some [''Sales'']" "''sum''"]
    reads_dates [of None] format_date_soon dates_values
  by blast


subsection \<open>C6: the rows and columns of the aggregated table\<close>

text \<open>
  Against claim C6 as stated. The table has two rows of May 2024, one with no region
  and one for region A. Two key combinations are present after the date filtering, but
  the aggregated table has one row: \<^verbatim>\<open>groupby\<close> leaves out the key with the missing
  region.
\<close>

theorem missing_region_key_has_no_row:
  "reads sales_library regions_file None regions_table \<and>
   keys_after_dates (format_date parse_nothing) ''Month'' [''Region''] regions_table =
     [[Str ''01-05-2024'', Null], [Str ''01-05-2024'', Str ''A'']] \<and>
   table_values (process_file sales_library regions_file None ''Month'' (Some [''Region'']) (Some [''Sales''])
        ''sum'' (format_date parse_nothing)) = Some [[Str ''01-05-2024'', Str ''A'', Num 20]]"
  using reads_regions [of None] regions_keys regions_values
  by (simp add: process_file_reads [OF reads_regions])

text \<open>
  Claim C6, amended. For every successful run of \<^verbatim>\<open>process_file\<close>, the columns of the
  aggregated table are, in order, \<^verbatim>\<open>Formatted Month\<close>, the group columns and the
  requested numeric columns; no two of its rows have the same key; and its keys are
  exactly the key combinations (normalised date, group column values) present after the
  date filtering in which no group column value is missing.
\<close>

theorem aggregated_table_rows_and_columns:
  assumes "reads L file sheet_name df"
    and "result (process_file L file sheet_name date_col (Some gs) (Some cs) agg_func (format_date parse)) =
           Inr (Some t)"
  shows "columns t = Formatted_Month # gs @ cs \<and>
         distinct (output_keys gs t) \<and>
         set (output_keys gs t) =
           set (filter (\<lambda>k. Null \<notin> set k) (keys_after_dates (format_date parse) date_col gs df))"
proof -
  have "result (process_data L df date_col (Some gs) (Some cs) agg_func (format_date parse)) = Inr (Some t)"
    using assms(2) by (simp add: process_file_reads [OF assms(1)])
  from process_data_success [OF this] obtain f where
    d: "distinct (Formatted_Month # gs @ cs)"
    and t: "t = groupby_agg f (Formatted_Month # gs) cs
                 (map (\<lambda>r. coerce_row (str_to_number L) cs (with_month (format_date parse) date_col r))
                    (filter (\<lambda>r. snd (format_date parse (r date_col)) \<noteq> None) (rows df)))"
    by auto
  have dk: "distinct (Formatted_Month # gs)"
    using d by auto
  have keys: "output_keys gs t =
      sort (remdups (map (group_key (Formatted_Month # gs))
        (filter (\<lambda>r. Null \<notin> set (group_key (Formatted_Month # gs) r))
           (map (\<lambda>r. coerce_row (str_to_number L) cs (with_month (format_date parse) date_col r))
              (filter (\<lambda>r. snd (format_date parse (r date_col)) \<noteq> None) (rows df))))))"
    unfolding output_keys_def t by (rule groupby_output_keys [OF dk])
  have "columns t = Formatted_Month # gs @ cs"
    unfolding t by (simp add: columns_groupby)
  moreover have "distinct (output_keys gs t)"
    unfolding keys by simp
  moreover have "set (output_keys gs t) =
           set (filter (\<lambda>k. Null \<notin> set k) (keys_after_dates (format_date parse) date_col gs df))"
    unfolding keys using set_kept_keys [OF d, of "str_to_number L" "format_date parse" date_col "rows df" df]
    by simp
  ultimately show ?thesis by blast
qed

text \<open>
  The specification's example: two rows of May 2024 for region A give one row, under
  the columns \<^verbatim>\<open>Formatted Month\<close>, \<^verbatim>\<open>Region\<close>, \<^verbatim>\<open>Sales\<close>.
\<close>

theorem aggregated_table_rows_and_columns_witness:
  "reads sales_library sales_file None sales_table \<and>
   result (process_file sales_library sales_file None ''Month'' (Some [''Region'']) (Some [''Sales''])
        ''sum'' (format_date parse_nothing)) =
     Inr (Some (returned_table (process_file sales_library sales_file None ''Month'' (Some [''Region''])
        (Some [''Sales'']) ''sum'' (format_date parse_nothing)))) \<and>
   columns (returned_table (process_file sales_library sales_file None ''Month'' (Some [''Region''])
        (Some [''Sales'']) ''sum'' (format_date parse_nothing))) = [''Formatted Month'', ''Region'', ''Sales''] \<and>
   values_of (returned_table (process_file sales_library sales_file None ''Month'' (Some [''Region''])
        (Some [''Sales'']) ''sum'' (format_date parse_nothing))) = [[Str ''01-05-2024'', Str ''A'', Num 30]] \<and>
   distinct (output_keys [''Region''] (returned_table (process_file sales_library sales_file None ''Month''
        (Some [''Region'']) (Some [''Sales'']) ''sum'' (format_date parse_nothing))))"
proof -
  let ?out = "process_file sales_library sales_file None ''Month'' (Some [''Region'']) (Some [''Sales''])
        ''sum'' (format_date parse_nothing)"
  have v: "table_values ?out = Some [[Str ''01-05-2024'', Str ''A'', Num 30]]"
    using sales_values by (simp add: process_file_reads [OF reads_sales])
  note r = table_values_result [OF v]
  from aggregated_table_rows_and_columns [OF reads_sales conjunct1 [OF r]] r reads_sales [of None]
  show ?thesis
    by (simp add: Formatted_Month_def)
qed


subsection \<open>C7: reading the CSV back\<close>

text \<open>
  Against claim C7 as stated. Two successful runs, on a table whose region is the text
  \<^verbatim>\<open>7\<close> and on a table whose region is the number 7, return different aggregated
  tables and write the same CSV. Whatever reads the CSV back cannot reproduce both
  tables: the CSV does not tell a text from the number it spells.
\<close>

theorem same_csv_for_different_tables:
  "table_values (process_data sales_library text_code_table ''Month'' (Some [''Region'']) (Some [''Sales''])
     ''sum'' (format_date parse_nothing)) = Some [[Str ''01-05-2024'', Str ''7'', Num 10]] \<and>
   table_values (process_data sales_library number_code_table ''Month'' (Some [''Region'']) (Some [''Sales''])
     ''sum'' (format_date parse_nothing)) = Some [[Str ''01-05-2024'', Num 7, Num 10]] \<and>
   csv_file (process_data sales_library text_code_table ''Month'' (Some [''Region'']) (Some [''Sales''])
     ''sum'' (format_date parse_nothing)) =
   csv_file (process_data sales_library number_code_table ''Month'' (Some [''Region'']) (Some [''Sales''])
     ''sum'' (format_date parse_nothing)) \<and>
   csv_file (process_data sales_library number_code_table ''Month'' (Some [''Region'']) (Some [''Sales''])
     ''sum'' (format_date parse_nothing)) = Some ''Formatted Month,Region,Sales\<newline>01-05-2024,7,10\<newline>''"
  using text_code_values number_code_values text_code_csv number_code_csv by simp

text \<open>
  Claim C7, amended. For every successful run of \<^verbatim>\<open>process_file\<close>, the CSV file and the
  download hold the same text, and parsing that text as a comma-separated table with a
  header row gives back the aggregated table's column names and, row by row, the text of
  each of its cells: the empty text for a missing value, a text as it is, a number as it
  is printed. The types of the cells are not recovered.
\<close>

theorem csv_text_round_trip:
  assumes "reads L file sheet_name df"
    and "result (process_file L file sheet_name date_col group_cols sum_cols agg_func (format_date parse)) =
           Inr (Some t)"
  shows "csv_file (process_file L file sheet_name date_col group_cols sum_cols agg_func (format_date parse)) =
           Some (to_csv (number_repr L) t) \<and>
         last (messages (process_file L file sheet_name date_col group_cols sum_cols agg_func (format_date parse))) =
           DownloadButton (to_csv (number_repr L) t) \<and>
         parse_csv (to_csv (number_repr L) t) =
           columns t # map (map (cell_text (number_repr L))) (values_of t)"
proof -
  have r: "result (process_data L df date_col group_cols sum_cols agg_func (format_date parse)) = Inr (Some t)"
    using assms(2) by (simp add: process_file_reads [OF assms(1)])
  from process_data_success [OF r] obtain cs gs f where
    t: "t = groupby_agg f (Formatted_Month # gs) cs
             (map (\<lambda>r. coerce_row (str_to_number L) cs (with_month (format_date parse) date_col r))
                (filter (\<lambda>r. snd (format_date parse (r date_col)) \<noteq> None) (rows df)))"
    and m: "messages (process_data L df date_col group_cols sum_cols agg_func (format_date parse)) =
             WriteColumns (columns df) # date_messages (format_date parse) date_col df @
               [Success, DownloadButton (to_csv (number_repr L) t)]"
    and c: "csv_file (process_data L df date_col group_cols sum_cols agg_func (format_date parse)) =
             Some (to_csv (number_repr L) t)"
    by blast
  have "columns t \<noteq> []"
    unfolding t by (simp add: columns_groupby)
  then have "parse_csv (to_csv (number_repr L) t) =
           columns t # map (map (cell_text (number_repr L))) (values_of t)"
    by (rule parse_csv_to_csv)
  then show ?thesis
    using m c by (simp add: process_file_reads [OF assms(1)])
qed

text \<open>
  The specification's example: the CSV of the aggregated table reads back as the header
  and one record of three texts.
\<close>

theorem csv_text_round_trip_witness:
  "reads sales_library sales_file None sales_table \<and>
   result (process_file sales_library sales_file None ''Month'' (Some [''Region'']) (Some [''Sales''])
        ''sum'' (format_date parse_nothing)) =
     Inr (Some (returned_table (process_file sales_library sales_file None ''Month'' (Some [''Region''])
        (Some [''Sales'']) ''sum'' (format_date parse_nothing)))) \<and>
   csv_file (process_file sales_library sales_file None ''Month'' (Some [''Region'']) (Some [''Sales''])
        ''sum'' (format_date parse_nothing)) =
     Some ''Formatted Month,Region,Sales\<newline>01-05-2024,A,30\<newline>'' \<and>
   to_csv (number_repr sales_library) (returned_table (process_file sales_library sales_file None ''Month''
        (Some [''Region'']) (Some [''Sales'']) ''sum'' (format_date parse_nothing))) =
     ''Formatted Month,Region,Sales\<newline>01-05-2024,A,30\<newline>'' \<and>
   parse_csv ''Formatted Month,Region,Sales\<newline>01-05-2024,A,30\<newline>'' =
     [[''Formatted Month'', ''Region'', ''Sales''], [''01-05-2024'', ''A'', ''30'']]"
proof -
  let ?out = "process_file sales_library sales_file None ''Month'' (Some [''Region'']) (Some [''Sales''])
        ''sum'' (format_date parse_nothing)"
  have v: "table_values ?out = Some [[Str ''01-05-2024'', Str ''A'', Num 30]]"
    using sales_values by (simp add: process_file_reads [OF reads_sales])
  note r = table_values_result [OF v]
  have c: "csv_file ?out = Some ''Formatted Month,Region,Sales\<newline>01-05-2024,A,30\<newline>''"
    using sales_csv by (simp add: process_file_reads [OF reads_sales])
  from csv_text_round_trip [OF reads_sales conjunct1 [OF r]] c r reads_sales [of None] parse_sales_csv
  show ?thesis
    by simp
qed

subsection \<open>C8: exceptions while parsing a date\<close>

text \<open>
  Claim C8. \<^verbatim>\<open>format_date\<close> returns on every value and lets no exception out. On a
  missing value it returns \<^verbatim>\<open>None\<close> and reports nothing. Each exception of its
  \<^verbatim>\<open>try\<close> block is caught, reported as one error message that names the value and
  the exception, and turned into \<^verbatim>\<open>None\<close>: the \<^verbatim>\<open>TypeError\<close> of \<^verbatim>\<open>re.match\<close> on a
  value that is no string, an exception of \<^verbatim>\<open>pd.to_datetime\<close> on a text that matches
  the special pattern, and an exception of the fuzzy parser on any other text. A value
  that is not missing gives \<^verbatim>\<open>None\<close> only with such a message, and a value that gives
  a date gives no message. Only the row of the value is affected: how a call of
  \<^verbatim>\<open>process_file\<close> ends (with which exception, with \<^verbatim>\<open>None\<close> or with a table) does not
  depend on the rows of the table at all.
\<close>

theorem format_date_catches_exceptions:
  "format_date parse Null = ([], None) \<and>
   format_date parse (Num q) = ([Error (ErrorParsingDate (Num q) TypeError)], None) \<and>
   (re_match s = Some (year, month) \<and> to_datetime (date_text year month) = Inl e \<longrightarrow>
      format_date parse (Str s) = ([Error (ErrorParsingDate (Str s) e)], None)) \<and>
   (re_match s = None \<and> parse s = Inl e \<longrightarrow>
      format_date parse (Str s) = ([Error (ErrorParsingDate (Str s) e)], None)) \<and>
   (snd (format_date parse v) = None \<longrightarrow>
      v = Null \<or> (\<exists>e'. fst (format_date parse v) = [Error (ErrorParsingDate v e')])) \<and>
   (snd (format_date parse v) \<noteq> None \<longrightarrow> fst (format_date parse v) = []) \<and>
   (reads L file sheet_name df \<longrightarrow>
      outcome_kind (process_file L file sheet_name date_col group_cols sum_cols agg_func (format_date parse)) =
      outcome_kind (process_data L (df\<lparr>rows := rs\<rparr>) date_col group_cols sum_cols agg_func (format_date parse)))"
proof (intro conjI impI)
  show "format_date parse Null = ([], None)"
    by (rule format_date_Null)
  show "format_date parse (Num q) = ([Error (ErrorParsingDate (Num q) TypeError)], None)"
    by (simp add: format_date_def format_date_try_def)
next
  assume "re_match s = Some (year, month) \<and> to_datetime (date_text year month) = Inl e"
  then show "format_date parse (Str s) = ([Error (ErrorParsingDate (Str s) e)], None)"
    by (simp add: format_date_def format_date_try_def)
next
  assume "re_match s = None \<and> parse s = Inl e"
  then show "format_date parse (Str s) = ([Error (ErrorParsingDate (Str s) e)], None)"
    by (simp add: format_date_def format_date_try_def)
next
  assume "snd (format_date parse v) = None"
  then show "v = Null \<or> (\<exists>e'. fst (format_date parse v) = [Error (ErrorParsingDate v e')])"
    by (cases "v = Null") (auto simp: format_date_def split: sum.splits)
next
  assume "snd (format_date parse v) \<noteq> None"
  then show "fst (format_date parse v) = []"
    by (auto simp: format_date_def split: sum.splits if_splits)
next
  assume "reads L file sheet_name df"
  then show "outcome_kind (process_file L file sheet_name date_col group_cols sum_cols agg_func (format_date parse)) =
      outcome_kind (process_data L (df\<lparr>rows := rs\<rparr>) date_col group_cols sum_cols agg_func (format_date parse))"
    using process_data_kind [of df "df\<lparr>rows := rs\<rparr>"]
    by (simp add: process_file_reads)
qed

text \<open>
  The text \<^verbatim>\<open>soon\<close> is no date: the parser's exception is reported and the value is
  \<^verbatim>\<open>None\<close>. Month 13 in the special pattern is a \<^verbatim>\<open>ValueError\<close> of \<^verbatim>\<open>pd.to_datetime\<close>,
  reported likewise. The run over the table that holds \<^verbatim>\<open>soon\<close> ends as the run over
  the table with no rows does: with a table.
\<close>

theorem format_date_catches_exceptions_witness:
  "re_match ''soon'' = None \<and> parse_nothing ''soon'' = Inl ParserError \<and>
   format_date parse_nothing (Str ''soon'') = ([Error (ErrorParsingDate (Str ''soon'') ParserError)], None) \<and>
   re_match ''2024 13 (Foo '24)'' = Some (''2024'', ''13'') \<and>
   to_datetime (date_text ''2024'' ''13'') = Inl ValueError \<and>
   format_date parse_nothing (Str ''2024 13 (Foo '24)'') =
     ([Error (ErrorParsingDate (Str ''2024 13 (Foo '24)'') ValueError)], None) \<and>
   reads sales_library dates_file None dates_table \<and>
   outcome_kind (process_file sales_library dates_file None ''Month'' (Some [''Region'']) (Some [''Sales''])
        ''sum'' (format_date parse_nothing)) =
   outcome_kind (process_data sales_library (dates_table\<lparr>rows := []\<rparr>) ''Month'' (Some [''Region''])
        (Some [''Sales'']) ''sum'' (format_date parse_nothing)) \<and>
   outcome_kind (process_file sales_library dates_file None ''Month'' (Some [''Region'']) (Some [''Sales''])
        ''sum'' (format_date parse_nothing)) = Inr True"
proof -
  have p: "parse_nothing ''soon'' = Inl ParserError"
    by (simp add: parse_nothing_def)
  have k: "outcome_kind (process_file sales_library dates_file None ''Month'' (Some [''Region''])
        (Some [''Sales'']) ''sum'' (format_date parse_nothing)) = Inr True"
    using dates_values
    by (simp add: process_file_reads [OF reads_dates] table_values_def outcome_kind_def
        split: sum.splits option.splits)
  note a = format_date_catches_exceptions [of parse_nothing _ "''soon''" _ _ ParserError _
      sales_library dates_file None dates_table "''Month''" "Some [''Region'']" "Some [''Sales'']" "''sum''" "[]"]
  note b = format_date_catches_exceptions [of parse_nothing _ "''2024 13 (Foo '24)''" "''2024''" "''13''"
      ValueError]
  from a re_match_soon p reads_dates [of None]
  have 1: "format_date parse_nothing (Str ''soon'') = ([Error (ErrorParsingDate (Str ''soon'') ParserError)], None)"
    and 2: "outcome_kind (process_file sales_library dates_file None ''Month'' (Some [''Region''])
        (Some [''Sales'']) ''sum'' (format_date parse_nothing)) =
      outcome_kind (process_data sales_library (dates_table\<lparr>rows := []\<rparr>) ''Month'' (Some [''Region''])
        (Some [''Sales'']) ''sum'' (format_date parse_nothing))"
    by blast+
  from b re_match_month_13 to_datetime_month_13
  have 3: "format_date parse_nothing (Str ''2024 13 (Foo '24)'') =
     ([Error (ErrorParsingDate (Str ''2024 13 (Foo '24)'') ValueError)], None)"
    by blast
  show ?thesis
    using 1 2 3 k p re_match_soon re_match_month_13 to_datetime_month_13 reads_dates [of None]
    by blast
qed



subsection \<open>C9: the file type\<close>

text \<open>
  Claim C9. For every uploaded file whose name ends in neither \<^verbatim>\<open>.xlsx\<close> nor \<^verbatim>\<open>.csv\<close>,
  \<^verbatim>\<open>process_file\<close> reports the unsupported file type and does nothing else: it returns
  \<^verbatim>\<open>None\<close>, writes no CSV and offers no download. A file whose name ends in \<^verbatim>\<open>.xlsx\<close>
  is read by \<^verbatim>\<open>read_excel\<close> with the selected sheet, a file whose name ends in
  \<^verbatim>\<open>.csv\<close> by \<^verbatim>\<open>read_csv\<close>, and the table read is what the rest of the function
  works on (an exception of the reader leaves the function).
\<close>

theorem process_file_file_type:
  "(\<not> endswith (name file) ''.xlsx'' \<and> \<not> endswith (name file) ''.csv'' \<longrightarrow>
      process_file L file sheet_name date_col group_cols sum_cols agg_func func =
        returned_none [Error UnsupportedFileType] \<and>
      no_output (process_file L file sheet_name date_col group_cols sum_cols agg_func func)) \<and>
   (endswith (name file) ''.xlsx'' \<longrightarrow>
      process_file L file sheet_name date_col group_cols sum_cols agg_func func =
        (case read_excel L file sheet_name of
           Inl e \<Rightarrow> raised e []
         | Inr data0 \<Rightarrow> process_data L data0 date_col group_cols sum_cols agg_func func)) \<and>
   (endswith (name file) ''.csv'' \<longrightarrow>
      process_file L file sheet_name date_col group_cols sum_cols agg_func func =
        (case read_csv L file of
           Inl e \<Rightarrow> raised e []
         | Inr data0 \<Rightarrow> process_data L data0 date_col group_cols sum_cols agg_func func))"
proof (intro conjI impI)
  assume "\<not> endswith (name file) ''.xlsx'' \<and> \<not> endswith (name file) ''.csv''"
  then show "process_file L file sheet_name date_col group_cols sum_cols agg_func func =
        returned_none [Error UnsupportedFileType]"
    by (simp add: process_file_def)
  then show "no_output (process_file L file sheet_name date_col group_cols sum_cols agg_func func)"
    by (simp add: no_output_returned_none is_download_def)
next
  assume "endswith (name file) ''.xlsx''"
  then show "process_file L file sheet_name date_col group_cols sum_cols agg_func func =
        (case read_excel L file sheet_name of
           Inl e \<Rightarrow> raised e []
         | Inr data0 \<Rightarrow> process_data L data0 date_col group_cols sum_cols agg_func func)"
    by (simp add: process_file_def)
next
  assume "endswith (name file) ''.csv''"
  then show "process_file L file sheet_name date_col group_cols sum_cols agg_func func =
        (case read_csv L file of
           Inl e \<Rightarrow> raised e []
         | Inr data0 \<Rightarrow> process_data L data0 date_col group_cols sum_cols agg_func func)"
    using endswith_csv_not_xlsx [of "name file"] by (simp add: process_file_def)
qed

text \<open>
  A text file is refused; a spreadsheet whose reader fails ends with the reader's
  exception; the CSV file of the example is handed to the rest of the function.
\<close>

theorem process_file_file_type_witness:
  "\<not> endswith (name notes_file) ''.xlsx'' \<and> \<not> endswith (name notes_file) ''.csv'' \<and>
   process_file sales_library notes_file None ''Month'' (Some [''Region'']) (Some [''Sales'']) ''sum''
       (format_date parse_nothing) = returned_none [Error UnsupportedFileType] \<and>
   no_output (process_file sales_library notes_file None ''Month'' (Some [''Region'']) (Some [''Sales''])
       ''sum'' (format_date parse_nothing)) \<and>
   endswith (name book_file) ''.xlsx'' \<and>
   process_file sales_library book_file (Some ''Sheet1'') ''Month'' (Some [''Region'']) (Some [''Sales''])
       ''sum'' (format_date parse_nothing) = raised (OtherError ''unreadable'') [] \<and>
   endswith (name sales_file) ''.csv'' \<and>
   process_file sales_library sales_file None ''Month'' (Some [''Region'']) (Some [''Sales'']) ''sum''
       (format_date parse_nothing) =
     process_data sales_library sales_table ''Month'' (Some [''Region'']) (Some [''Sales'']) ''sum''
       (format_date parse_nothing)"
proof -
  have n: "\<not> endswith (name notes_file) ''.xlsx''" "\<not> endswith (name notes_file) ''.csv''"
    by (simp_all add: notes_file_def endswith_def)
  have b: "endswith (name book_file) ''.xlsx''"
    by (simp add: book_file_def endswith_def)
  have s: "endswith (name sales_file) ''.csv''"
    by (simp add: sales_file_def endswith_def)
  have rb: "read_excel sales_library book_file (Some ''Sheet1'') = Inl (OtherError ''unreadable'')"
    by (simp add: sales_library_def simple_library_def book_file_def)
  have rs: "read_csv sales_library sales_file = Inr sales_table"
    by (simp add: sales_library_def simple_library_def sales_file_def)
  show ?thesis
    using n b s
      process_file_file_type [of notes_file sales_library None "''Month''" "Some [''Region'']"
        "Some [''Sales'']" "''sum''" "format_date parse_nothing"]
      process_file_file_type [of book_file sales_library "Some ''Sheet1''" "''Month''" "Some [''Region'']"
        "Some [''Sales'']" "''sum''" "format_date parse_nothing"]
      process_file_file_type [of sales_file sales_library None "''Month''" "Some [''Region'']"
        "Some [''Sales'']" "''sum''" "format_date parse_nothing"]
    by (simp add: rb rs no_output_returned_none is_download_def)
qed


subsection \<open>C10: rows with a missing group value\<close>

text \<open>
  Claim C10. For every table and list of group columns, the rows with a missing value in
  some group column are left out of the aggregated output, also when their date was
  normalised: the value the call returns and the CSV it writes are those of processing
  the table without these rows. Nothing reports it: the messages of a call that returns a
  table are the column listing, the messages of the date function, the success message
  and the download.
\<close>

theorem rows_with_missing_group_value_excluded:
  "reads L file sheet_name df \<longrightarrow>
     result (process_file L file sheet_name date_col (Some gs) sum_cols agg_func (format_date parse)) =
     result (process_data L (df\<lparr>rows := filter (\<lambda>r. list_all (\<lambda>g. r g \<noteq> Null) gs) (rows df)\<rparr>)
               date_col (Some gs) sum_cols agg_func (format_date parse)) \<and>
     csv_file (process_file L file sheet_name date_col (Some gs) sum_cols agg_func (format_date parse)) =
     csv_file (process_data L (df\<lparr>rows := filter (\<lambda>r. list_all (\<lambda>g. r g \<noteq> Null) gs) (rows df)\<rparr>)
               date_col (Some gs) sum_cols agg_func (format_date parse)) \<and>
     (\<forall>t. result (process_file L file sheet_name date_col (Some gs) sum_cols agg_func (format_date parse)) =
            Inr (Some t) \<longrightarrow>
          messages (process_file L file sheet_name date_col (Some gs) sum_cols agg_func (format_date parse)) =
            WriteColumns (columns df) # date_messages (format_date parse) date_col df @
              [Success, DownloadButton (to_csv (number_repr L) t)])"
proof (intro impI conjI allI)
  assume r: "reads L file sheet_name df"
  show "result (process_file L file sheet_name date_col (Some gs) sum_cols agg_func (format_date parse)) =
     result (process_data L (df\<lparr>rows := filter (\<lambda>r. list_all (\<lambda>g. r g \<noteq> Null) gs) (rows df)\<rparr>)
               date_col (Some gs) sum_cols agg_func (format_date parse))"
    unfolding process_file_reads [OF r] using process_data_group_rows [where L = L and df = df and gs = gs] by simp
  show "csv_file (process_file L file sheet_name date_col (Some gs) sum_cols agg_func (format_date parse)) =
     csv_file (process_data L (df\<lparr>rows := filter (\<lambda>r. list_all (\<lambda>g. r g \<noteq> Null) gs) (rows df)\<rparr>)
               date_col (Some gs) sum_cols agg_func (format_date parse))"
    unfolding process_file_reads [OF r] using process_data_group_rows [where L = L and df = df and gs = gs] by simp
  fix t
  assume "result (process_file L file sheet_name date_col (Some gs) sum_cols agg_func (format_date parse)) =
            Inr (Some t)"
  then have "result (process_data L df date_col (Some gs) sum_cols agg_func (format_date parse)) = Inr (Some t)"
    by (simp add: process_file_reads [OF r])
  from process_data_success [OF this]
  show "messages (process_file L file sheet_name date_col (Some gs) sum_cols agg_func (format_date parse)) =
            WriteColumns (columns df) # date_messages (format_date parse) date_col df @
              [Success, DownloadButton (to_csv (number_repr L) t)]"
    unfolding process_file_reads [OF r] by blast
qed

text \<open>
  A table of two rows of May 2024: sales 10 with no region, sales 20 for region A. The
  output has the row of region A only, and no error is reported.
\<close>

theorem rows_with_missing_group_value_excluded_witness:
  "reads sales_library regions_file None regions_table \<and>
   result (process_file sales_library regions_file None ''Month'' (Some [''Region'']) (Some [''Sales''])
        ''sum'' (format_date parse_nothing)) =
   result (process_data sales_library
        (regions_table\<lparr>rows := filter (\<lambda>r. list_all (\<lambda>g. r g \<noteq> Null) [''Region'']) (rows regions_table)\<rparr>)
        ''Month'' (Some [''Region'']) (Some [''Sales'']) ''sum'' (format_date parse_nothing)) \<and>
   table_values (process_file sales_library regions_file None ''Month'' (Some [''Region'']) (Some [''Sales''])
        ''sum'' (format_date parse_nothing)) = Some [[Str ''01-05-2024'', Str ''A'', Num 20]] \<and>
   messages (process_file sales_library regions_file None ''Month'' (Some [''Region'']) (Some [''Sales''])
        ''sum'' (format_date parse_nothing)) =
     [WriteColumns sales_columns, Success,
      DownloadButton ''Formatted Month,Region,Sales\<newline>01-05-2024,A,20\<newline>'']"
  using rows_with_missing_group_value_excluded [of sales_library regions_file None regions_table
      "''Month''" "[''Region'']" "Some [''Sales'']" "''sum''" parse_nothing]
    reads_regions [of None] regions_values regions_messages
  by (simp add: process_file_reads [OF reads_regions])

end
